theory Spec2Isabelle
  imports
    Main
    "HOL-Library.Signed_Division"
    "HOL-Library.Char_ord"
    "HOL-Library.List_Lexorder"
begin

section \<open>JavaScript values used by the handlers\<close>

text \<open>
  A column of the \<open>entries\<close> table and a field of a request body is a string or
  absent (SQL \<open>NULL\<close>, JavaScript \<open>undefined\<close>/\<open>null\<close>): \<open>string option\<close>.
  The handlers test such values by JavaScript truthiness: \<open>null\<close> and the empty
  string are falsy, every other string is truthy.
\<close>

definition truthy :: "string option \<Rightarrow> bool" where
  "truthy v = (case v of None \<Rightarrow> False | Some s \<Rightarrow> s \<noteq> [])"

text \<open>\<open>a || b\<close> with a string default, and \<open>a || null\<close>.\<close>

definition or_str :: "string option \<Rightarrow> string \<Rightarrow> string" where
  "or_str a b = (case a of None \<Rightarrow> b | Some s \<Rightarrow> if s = [] then b else s)"

definition or_null :: "string option \<Rightarrow> string option" where
  "or_null a = (case a of None \<Rightarrow> None | Some s \<Rightarrow> if s = [] then None else Some s)"

text \<open>SQL \<open>COALESCE(x, y)\<close>: the first argument unless it is \<open>NULL\<close>.\<close>

definition coalesce :: "string option \<Rightarrow> string option \<Rightarrow> string option" where
  "coalesce x y = (case x of None \<Rightarrow> y | Some s \<Rightarrow> Some s)"

subsection \<open>Numbers and their decimal text\<close>

definition digit_char :: "nat \<Rightarrow> char" where
  "digit_char n = char_of (48 + n)"

text \<open>\<open>String(n)\<close> for a non-negative integer, and for any integer.\<close>

function show_nat :: "nat \<Rightarrow> string" where
  "show_nat n = (if n < 10 then [digit_char n] else show_nat (n div 10) @ [digit_char (n mod 10)])"
  by pat_completeness auto
termination
  by (relation "measure (\<lambda>n. n)") auto

declare show_nat.simps [simp del]

definition show_int :: "int \<Rightarrow> string" where
  "show_int i = (if i < 0 then CHR ''-'' # show_nat (nat (- i)) else show_nat (nat i))"

text \<open>\<open>s.padStart(2, '0')\<close>.\<close>

definition padStart2 :: "string \<Rightarrow> string" where
  "padStart2 s = replicate (2 - length s) CHR ''0'' @ s"

text \<open>
  \<open>Number(s)\<close> on the strings the handlers parse: a string of decimal digits is its
  value and the empty string is 0. Every other string is outside the fragment modelled
  here (\<open>None\<close>); JavaScript yields \<open>NaN\<close> for most of them.
\<close>

definition is_digit :: "char \<Rightarrow> bool" where
  "is_digit c = (48 \<le> (of_char c :: nat) \<and> (of_char c :: nat) \<le> 57)"

fun digits_value :: "nat \<Rightarrow> string \<Rightarrow> nat" where
  "digits_value acc [] = acc"
| "digits_value acc (c # cs) = digits_value (acc * 10 + (of_char c - 48)) cs"

definition Number :: "string \<Rightarrow> int option" where
  "Number s = (if list_all is_digit s then Some (int (digits_value 0 s)) else None)"

text \<open>\<open>s.split(':')\<close>.\<close>

fun split_colon :: "string \<Rightarrow> string list" where
  "split_colon [] = [[]]"
| "split_colon (c # cs) =
     (if c = CHR '':'' then [] # split_colon cs
      else (case split_colon cs of [] \<Rightarrow> [[c]] | p # ps \<Rightarrow> (c # p) # ps))"

text \<open>
  \<open>const [h, m] = s.split(':').map(Number)\<close> followed by \<open>h * 60 + m\<close>: the minutes
  since midnight of an \<open>HH:MM\<close> string.
\<close>

definition minutes_of :: "string \<Rightarrow> int option" where
  "minutes_of s =
     (case map Number (split_colon s) of
        Some h # Some m # _ \<Rightarrow> Some (h * 60 + m)
      | _ \<Rightarrow> None)"

section \<open>The entries table\<close>

text \<open>
  One row of \<open>entries\<close>: \<open>id INTEGER PRIMARY KEY AUTOINCREMENT\<close>, \<open>user_id\<close>,
  \<open>date TEXT NOT NULL\<close> and the nullable text columns. (\<open>created_at\<close> is never read
  by the handlers below and is left out.)
\<close>

record entry =
  e_id :: nat
  user_id :: nat
  date :: string
  check_in :: "string option"
  check_out :: "string option"
  comment :: "string option"
  timezone :: "string option"

text \<open>
  The table is the list of its rows in insertion order, with the counter that SQLite
  keeps for an \<open>AUTOINCREMENT\<close> key (the largest row id ever handed out).
\<close>

record store =
  entries :: "entry list"
  seq :: nat

definition empty_store :: store where
  "empty_store = \<lparr>entries = [], seq = 0\<rparr>"

text \<open>
  \<open>AUTOINCREMENT\<close>: the new row id is one more than the largest id that ever existed
  in the table.
\<close>

definition next_rowid :: "store \<Rightarrow> nat" where
  "next_rowid s = Suc (fold max (map e_id (entries s)) (seq s))"

text \<open>\<open>INSERT INTO entries (user_id, date, check_in, timezone) VALUES (?, ?, ?, ?)\<close>,
  returning \<open>lastInsertRowid\<close>.\<close>

definition insert_entry ::
  "nat \<Rightarrow> string \<Rightarrow> string \<Rightarrow> string option \<Rightarrow> store \<Rightarrow> nat \<times> store" where
  "insert_entry u d t tz s =
     (let i = next_rowid s in
      (i, \<lparr>entries = entries s @
              [\<lparr>e_id = i, user_id = u, date = d, check_in = Some t, check_out = None,
                comment = None, timezone = tz\<rparr>],
           seq = i\<rparr>))"

text \<open>\<open>ORDER BY id DESC LIMIT 1\<close> over rows already selected.\<close>

fun newest :: "entry list \<Rightarrow> entry option" where
  "newest [] = None"
| "newest (e # es) =
     (case newest es of
        None \<Rightarrow> Some e
      | Some m \<Rightarrow> if e_id e < e_id m then Some m else Some e)"

text \<open>\<open>SELECT * FROM entries WHERE user_id = ? AND date = ? ORDER BY id DESC LIMIT 1\<close>.\<close>

definition select_latest :: "nat \<Rightarrow> string \<Rightarrow> store \<Rightarrow> entry option" where
  "select_latest u d s = newest (filter (\<lambda>e. user_id e = u \<and> date e = d) (entries s))"

text \<open>
  \<open>UPDATE entries SET check_out = ?, comment = ?, timezone = COALESCE(timezone, ?)
  WHERE id = ? AND user_id = ?\<close> (the clock-out handler).
\<close>

definition update_clock_out ::
  "string \<Rightarrow> string option \<Rightarrow> string option \<Rightarrow> nat \<Rightarrow> nat \<Rightarrow> store \<Rightarrow> store" where
  "update_clock_out t c tz i u s =
     s\<lparr>entries :=
         map (\<lambda>e. if e_id e = i \<and> user_id e = u
                   then e\<lparr>check_out := Some t, comment := c,
                          timezone := coalesce (timezone e) tz\<rparr>
                   else e)
             (entries s)\<rparr>"

text \<open>
  \<open>UPDATE entries SET check_out = ?, timezone = COALESCE(timezone, ?)
  WHERE id = ? AND user_id = ?\<close> (the toggle handler; the comment stays).
\<close>

definition update_toggle_out ::
  "string \<Rightarrow> string option \<Rightarrow> nat \<Rightarrow> nat \<Rightarrow> store \<Rightarrow> store" where
  "update_toggle_out t tz i u s =
     s\<lparr>entries :=
         map (\<lambda>e. if e_id e = i \<and> user_id e = u
                   then e\<lparr>check_out := Some t, timezone := coalesce (timezone e) tz\<rparr>
                   else e)
             (entries s)\<rparr>"

text \<open>
  \<open>SELECT comment, date FROM entries WHERE user_id = ? AND comment IS NOT NULL AND
  comment != '' ORDER BY date DESC, id DESC LIMIT 1\<close>. Dates are compared as text
  (byte-wise, a proper prefix first), which is the order of \<open>string\<close> here.
\<close>

definition later :: "entry \<Rightarrow> entry \<Rightarrow> bool" where
  "later a b = (date b < date a \<or> (date a = date b \<and> e_id b < e_id a))"

fun first_by_date_id :: "entry list \<Rightarrow> entry option" where
  "first_by_date_id [] = None"
| "first_by_date_id (e # es) =
     (case first_by_date_id es of
        None \<Rightarrow> Some e
      | Some m \<Rightarrow> if later m e then Some m else Some e)"

definition has_comment :: "entry \<Rightarrow> bool" where
  "has_comment e = (comment e \<noteq> None \<and> comment e \<noteq> Some [])"

definition select_last_comment :: "nat \<Rightarrow> store \<Rightarrow> entry option" where
  "select_last_comment u s =
     first_by_date_id (filter (\<lambda>e. user_id e = u \<and> has_comment e) (entries s))"

section \<open>The lifecycle handlers\<close>

text \<open>
  What a handler reads besides the table: the authenticated user, the JSON body, and
  the server's clock, which stands in for a date or time the client left out.
  \<open>iso_date\<close> is \<open>new Date().toISOString().split('T')[0]\<close>; \<open>time_hm\<close> is
  \<open>new Date().toTimeString().slice(0, 5)\<close>, the two-digit hours and minutes.
\<close>

record clock =
  iso_date :: string
  hours :: nat
  minutes :: nat

definition time_hm :: "clock \<Rightarrow> string" where
  "time_hm c = padStart2 (show_nat (hours c)) @ CHR '':'' # padStart2 (show_nat (minutes c))"

record request =
  req_user :: nat
  req_date :: "string option"
  req_time :: "string option"
  req_timezone :: "string option"
  req_comment :: "string option"

definition today_of :: "clock \<Rightarrow> request \<Rightarrow> string" where
  "today_of c rq = or_str (req_date rq) (iso_date c)"

definition now_of :: "clock \<Rightarrow> request \<Rightarrow> string" where
  "now_of c rq = or_str (req_time rq) (time_hm c)"

text \<open>The 400 responses, by their \<open>error\<close> text.\<close>

datatype error = Already_clocked_in | Not_clocked_in | Already_clocked_out | Unknown_state

text \<open>
  The 200 responses: the JSON objects of the three handlers. The duration of a toggle
  reply is \<open>None\<close> when a time is outside the fragment of \<open>Number\<close> modelled above.
  The database is taken not to fail, so the 500 response of toggle does not occur.
\<close>

datatype reply =
    ClockIn_ok (new_id: nat) (at_time: string)
  | ClockOut_ok (at_time: string)
  | Toggle_in (action: string) (at_time: string) (entryId: nat)
      (lastComment: "string option") (lastCommentDate: "string option")
  | Toggle_out (action: string) (at_time: string) (checkIn: string) (checkOut: string)
      (duration: "string option") (entryId: nat)

text \<open>\<open>POST /api/clock-in\<close>.\<close>

definition clock_in :: "clock \<Rightarrow> request \<Rightarrow> store \<Rightarrow> store \<times> (error + reply)" where
  "clock_in c rq s =
     (let today = today_of c rq;
          now = now_of c rq;
          tz = or_null (req_timezone rq);
          existing = select_latest (req_user rq) today s
      in if (case existing of None \<Rightarrow> False
             | Some e \<Rightarrow> truthy (check_in e) \<and> \<not> truthy (check_out e))
         then (s, Inl Already_clocked_in)
         else (let (i, s') = insert_entry (req_user rq) today now tz s
               in (s', Inr (ClockIn_ok i now))))"

text \<open>\<open>POST /api/clock-out\<close>.\<close>

definition clock_out :: "clock \<Rightarrow> request \<Rightarrow> store \<Rightarrow> store \<times> (error + reply)" where
  "clock_out c rq s =
     (let today = today_of c rq;
          now = now_of c rq
      in case select_latest (req_user rq) today s of
           None \<Rightarrow> (s, Inl Not_clocked_in)
         | Some e \<Rightarrow>
             if \<not> truthy (check_in e) then (s, Inl Not_clocked_in)
             else if truthy (check_out e) then (s, Inl Already_clocked_out)
             else (update_clock_out now (or_null (req_comment rq))
                     (or_null (req_timezone rq)) (e_id e) (req_user rq) s,
                   Inr (ClockOut_ok now)))"

text \<open>
  The duration text of the toggle handler: \<open>Math.floor(totalMinutes / 60)\<close> is the
  floor division of integers, \<open>totalMinutes % 60\<close> is the remainder that takes the
  sign of \<open>totalMinutes\<close> (\<open>smod\<close>).
\<close>

definition duration_text :: "string \<Rightarrow> string \<Rightarrow> string option" where
  "duration_text cin cout =
     (case (minutes_of cin, minutes_of cout) of
        (Some i, Some out) \<Rightarrow>
          (let totalMinutes = out - i;
               hours = totalMinutes div 60;
               mins = totalMinutes smod 60
           in Some (show_int hours @ ''h '' @ show_int mins @ ''m''))
      | _ \<Rightarrow> None)"

text \<open>\<open>POST /api/toggle\<close>.\<close>

definition toggle :: "clock \<Rightarrow> request \<Rightarrow> store \<Rightarrow> store \<times> (error + reply)" where
  "toggle c rq s =
     (let today = today_of c rq;
          now = now_of c rq;
          tz = or_null (req_timezone rq);
          entry = select_latest (req_user rq) today s
      in if (case entry of None \<Rightarrow> True | Some e \<Rightarrow> truthy (check_out e))
         then (let (i, s') = insert_entry (req_user rq) today now tz s;
                   lastCommentEntry = select_last_comment (req_user rq) s'
               in (s', Inr (Toggle_in ''check-in'' now i
                              (case lastCommentEntry of None \<Rightarrow> None | Some l \<Rightarrow> comment l)
                              (case lastCommentEntry of None \<Rightarrow> None | Some l \<Rightarrow> Some (date l)))))
         else (case entry of
                 None \<Rightarrow> (s, Inl Unknown_state)
               | Some e \<Rightarrow>
                   (case check_in e of
                      None \<Rightarrow> (s, Inl Unknown_state)
                    | Some cin \<Rightarrow>
                        if cin \<noteq> [] \<and> \<not> truthy (check_out e)
                        then (update_toggle_out now tz (e_id e) (req_user rq) s,
                              Inr (Toggle_out ''check-out'' now cin now
                                     (duration_text cin now) (e_id e)))
                        else (s, Inl Unknown_state))))"

text \<open>
  The state of a day is not stored: \<open>GET /api/status\<close> derives it from the latest
  row, \<open>checkedIn: entry?.check_in && !entry?.check_out\<close> and
  \<open>checkedOut: !!entry?.check_out\<close>. A row is open when it is checked in, closed
  when it has both times. The day is \<open>OPEN\<close> when its latest row is open and
  \<open>NONE\<close> when it has no row or its latest row is closed.
\<close>

definition checkedIn :: "entry \<Rightarrow> bool" where
  "checkedIn e = (truthy (check_in e) \<and> \<not> truthy (check_out e))"

definition checkedOut :: "entry \<Rightarrow> bool" where
  "checkedOut e = truthy (check_out e)"

definition closed :: "entry \<Rightarrow> bool" where
  "closed e = (truthy (check_in e) \<and> checkedOut e)"

definition state_OPEN :: "nat \<Rightarrow> string \<Rightarrow> store \<Rightarrow> bool" where
  "state_OPEN u d s = (case select_latest u d s of None \<Rightarrow> False | Some e \<Rightarrow> checkedIn e)"

definition state_NONE :: "nat \<Rightarrow> string \<Rightarrow> store \<Rightarrow> bool" where
  "state_NONE u d s = (case select_latest u d s of None \<Rightarrow> True | Some e \<Rightarrow> closed e)"

text \<open>The open rows of one user and day.\<close>

definition open_entries :: "nat \<Rightarrow> string \<Rightarrow> store \<Rightarrow> entry list" where
  "open_entries u d s =
     filter (\<lambda>e. user_id e = u \<and> date e = d \<and> checkedIn e) (entries s)"

text \<open>
  Requests arrive one after the other; each handler runs to its response before the
  next starts. A history is the list of the requests served so far.
\<close>

datatype call = ClockIn clock request | ClockOut clock request | Toggle clock request

fun serve :: "call \<Rightarrow> store \<Rightarrow> store \<times> (error + reply)" where
  "serve (ClockIn c rq) s = clock_in c rq s"
| "serve (ClockOut c rq) s = clock_out c rq s"
| "serve (Toggle c rq) s = toggle c rq s"

fun call_user :: "call \<Rightarrow> nat" where
  "call_user (ClockIn c rq) = req_user rq"
| "call_user (ClockOut c rq) = req_user rq"
| "call_user (Toggle c rq) = req_user rq"

fun call_date :: "call \<Rightarrow> string" where
  "call_date (ClockIn c rq) = today_of c rq"
| "call_date (ClockOut c rq) = today_of c rq"
| "call_date (Toggle c rq) = today_of c rq"

fun run :: "call list \<Rightarrow> store \<Rightarrow> store" where
  "run [] s = s"
| "run (k # ks) s = run ks (fst (serve k s))"

text \<open>
  What every table built by the three handlers alone satisfies: each row has a
  check-in, an open row is the latest row of its user and day, and row ids are unique.
\<close>

definition lifecycle_inv :: "store \<Rightarrow> bool" where
  "lifecycle_inv s =
     ((\<forall>e\<in>set (entries s). truthy (check_in e)) \<and>
      (\<forall>e\<in>set (entries s). checkedIn e \<longrightarrow>
          select_latest (user_id e) (date e) s = Some e) \<and>
      distinct (map e_id (entries s)))"

text \<open>The replies that report a check-out.\<close>

fun checks_out :: "reply \<Rightarrow> bool" where
  "checks_out (ClockOut_ok t) = True"
| "checks_out (Toggle_out a t ci co du i) = True"
| "checks_out r = False"

text \<open>
  The reading of a time \<open>HH:MM\<close> in the claims: two digits, a colon, two digits,
  standing for \<open>HH * 60 + MM\<close> minutes.
\<close>

definition digit_value :: "char \<Rightarrow> nat" where
  "digit_value c = of_char c - 48"

fun is_hhmm :: "string \<Rightarrow> bool" where
  "is_hhmm [a, b, c, d, e] =
     (is_digit a \<and> is_digit b \<and> c = CHR '':'' \<and> is_digit d \<and> is_digit e)"
| "is_hhmm s = False"

fun hhmm_minutes :: "string \<Rightarrow> int" where
  "hhmm_minutes [a, b, c, d, e] =
     int ((10 * digit_value a + digit_value b) * 60 + (10 * digit_value d + digit_value e))"
| "hhmm_minutes s = 0"

text \<open>
  The duration text as claim C5 words it, with the floor \<open>h\<close> and \<open>m\<close> the
  difference \<open>mod 60\<close>.
\<close>

definition claimed_duration :: "string \<Rightarrow> string \<Rightarrow> string" where
  "claimed_duration cin cout =
     (let t = hhmm_minutes cout - hhmm_minutes cin
      in show_int (t div 60) @ ''h '' @ show_int (t mod 60) @ ''m'')"

section \<open>The month report\<close>

subsection \<open>Calendar dates of the platform\<close>

text \<open>
  A JavaScript \<open>Date\<close> at day resolution: \<open>getFullYear()\<close>, \<open>getMonth()\<close>
  (0 to 11) and \<open>getDate()\<close>. The report reads dates in the proleptic Gregorian
  calendar through four operations of the platform, modelled here: the constructor
  \<open>new Date(year, monthIndex, day)\<close>, which takes a year below 100 as \<open>1900 + year\<close>;
  the length of a month (\<open>new Date(year, month, 0).getDate()\<close>); the day of the week
  (\<open>getDay()\<close>, 0 for Sunday); and the reading of a \<open>YYYY-MM-DD\<close> string.
\<close>

record js_date =
  d_year :: nat
  d_month :: nat
  d_day :: nat

definition Date_year :: "nat \<Rightarrow> nat" where
  "Date_year y = (if y < 100 then 1900 + y else y)"

definition is_leap :: "nat \<Rightarrow> bool" where
  "is_leap y = (y mod 4 = 0 \<and> (y mod 100 \<noteq> 0 \<or> y mod 400 = 0))"

definition days_in_month :: "nat \<Rightarrow> nat \<Rightarrow> nat" where
  "days_in_month y m =
     (if m = 2 then (if is_leap y then 29 else 28)
      else if m = 4 \<or> m = 6 \<or> m = 9 \<or> m = 11 then 30 else 31)"

definition day_of_week :: "nat \<Rightarrow> nat \<Rightarrow> nat \<Rightarrow> nat" where
  "day_of_week y m d =
     (let y' = (if m < 3 then y - 1 else y)
      in (y' + y' div 4 - y' div 100 + y' div 400
            + [0, 3, 2, 5, 0, 3, 5, 1, 4, 6, 2, 4] ! ((m - 1) mod 12) + d) mod 7)"

text \<open>
  \<open>new Date(s + 'T00:00:00')\<close> for a string \<open>s\<close> of the form \<open>YYYY-MM-DD\<close> that
  names a day of the calendar. Other strings are outside the fragment modelled here
  (\<open>None\<close>).
\<close>

definition calendar_day :: "nat \<Rightarrow> nat \<Rightarrow> nat \<Rightarrow> js_date option" where
  "calendar_day y m d =
     (if 1 \<le> m \<and> m \<le> 12 \<and> 1 \<le> d \<and> d \<le> days_in_month y m
      then Some \<lparr>d_year = y, d_month = m - 1, d_day = d\<rparr>
      else None)"

fun parse_iso_date :: "string \<Rightarrow> js_date option" where
  "parse_iso_date [y1, y2, y3, y4, s1, m1, m2, s2, d1, d2] =
     (if list_all is_digit [y1, y2, y3, y4, m1, m2, d1, d2] \<and> s1 = CHR ''-'' \<and> s2 = CHR ''-''
      then calendar_day (digits_value 0 [y1, y2, y3, y4]) (digits_value 0 [m1, m2])
             (digits_value 0 [d1, d2])
      else None)"
| "parse_iso_date s = None"

text \<open>
  \<open>current <= end\<close> for \<open>current\<close> the first of a month at 00:00:00 and \<open>end\<close>
  a day at 23:59:59, both in local time.
\<close>

definition first_of_month_le :: "nat \<times> nat \<Rightarrow> js_date \<Rightarrow> bool" where
  "first_of_month_le cur e =
     (fst cur < d_year e \<or>
      (fst cur = d_year e \<and> (snd cur < d_month e \<or> (snd cur = d_month e \<and> 1 \<le> d_day e))))"

text \<open>\<open>current.setMonth(current.getMonth() + 1)\<close> on the first of a month.\<close>

definition next_month :: "nat \<times> nat \<Rightarrow> nat \<times> nat" where
  "next_month cur = (if 11 \<le> snd cur then (fst cur + 1, 0) else (fst cur, snd cur + 1))"

subsection \<open>The report\<close>

record month_info =
  year :: nat
  month :: nat
  monthName :: string

definition monthNames :: "string list" where
  "monthNames = [''January'', ''February'', ''March'', ''April'', ''May'', ''June'',
                 ''July'', ''August'', ''September'', ''October'', ''November'', ''December'']"

definition weekdays :: "string list" where
  "weekdays = [''Sunday'', ''Monday'', ''Tuesday'', ''Wednesday'', ''Thursday'', ''Friday'',
               ''Saturday'']"

text \<open>
  An array read in a template string; past the end JavaScript yields \<open>undefined\<close>,
  printed as such.
\<close>

definition name_at :: "string list \<Rightarrow> nat \<Rightarrow> string" where
  "name_at xs i = (if i < length xs then xs ! i else ''undefined'')"

text \<open>The loop of \<open>_getMonthsInRange\<close>, from the month \<open>current\<close> stands on.\<close>

function months_loop :: "nat \<times> nat \<Rightarrow> js_date \<Rightarrow> month_info list" where
  "months_loop cur e =
     (if first_of_month_le cur e
      then \<lparr>year = fst cur, month = snd cur + 1, monthName = name_at monthNames (snd cur)\<rparr>
             # months_loop (next_month cur) e
      else [])"
  by pat_completeness auto
termination
  by (relation "measure (\<lambda>(cur, e). (d_year e * 12 + 12) - (fst cur * 12 + min (snd cur) 11))")
     (auto simp: first_of_month_le_def next_month_def)

declare months_loop.simps [simp del]

text \<open>\<open>_getMonthsInRange\<close>, on the two dates it has parsed.\<close>

definition getMonthsInRange :: "js_date \<Rightarrow> js_date \<Rightarrow> month_info list" where
  "getMonthsInRange start e = months_loop (Date_year (d_year start), d_month start) e"

text \<open>
  A row of a month sheet: date, weekday, check-in, check-out, total hours and comment.
  The total is \<open>None\<close> when a time of the entry is outside the fragment of \<open>Number\<close>
  modelled above.
\<close>

record day_row =
  r_date :: string
  r_weekday :: string
  r_check_in :: string
  r_check_out :: string
  r_total :: "string option"
  r_comment :: string

record month_sheet =
  sheet_name :: string
  sheet_rows :: "day_row list"
  sheet_total :: "string option"

datatype worksheet = Month month_sheet | No_data

text \<open>\<open>`${year}-${String(month).padStart(2, '0')}-${String(day).padStart(2, '0')}`\<close>.\<close>

definition date_string :: "nat \<Rightarrow> nat \<Rightarrow> nat \<Rightarrow> string" where
  "date_string y m d =
     show_nat y @ ''-'' @ padStart2 (show_nat m) @ ''-'' @ padStart2 (show_nat d)"

text \<open>\<open>`${hours}:${mins.toString().padStart(2, '0')}`\<close> for \<open>hours = Math.floor(t / 60)\<close>
  and \<open>mins = t % 60\<close>.\<close>

definition format_total :: "int \<Rightarrow> string" where
  "format_total t = show_int (t div 60) @ '':'' @ padStart2 (show_int (t smod 60))"

text \<open>
  The minutes an entry adds to the month: the difference of its times when it has
  both, 0 otherwise.
\<close>

definition entry_minutes :: "entry \<Rightarrow> int option" where
  "entry_minutes e =
     (if truthy (check_in e) \<and> truthy (check_out e)
      then (case (minutes_of (or_str (check_in e) []), minutes_of (or_str (check_out e) [])) of
              (Some i, Some out) \<Rightarrow> Some (out - i)
            | _ \<Rightarrow> None)
      else Some 0)"

text \<open>The body of the loop over the days of \<open>_createMonthSheet\<close>: the row of one day
  and the minutes it adds to \<open>totalMinutesMonth\<close>.\<close>

definition day_cells :: "month_info \<Rightarrow> (string \<rightharpoonup> entry) \<Rightarrow> nat \<Rightarrow> day_row \<times> int option" where
  "day_cells mi entriesMap day =
     (let date = date_string (year mi) (month mi) day;
          wd = day_of_week (Date_year (year mi)) (month mi) day;
          weekday = name_at weekdays wd;
          isWeekend = (wd = 0 \<or> wd = 6)
      in case entriesMap date of
           Some entry \<Rightarrow>
             (\<lparr>r_date = date, r_weekday = weekday,
               r_check_in = or_str (check_in entry) [],
               r_check_out = or_str (check_out entry) [],
               r_total = (if truthy (check_in entry) \<and> truthy (check_out entry)
                          then map_option format_total (entry_minutes entry) else Some []),
               r_comment = or_str (comment entry) []\<rparr>,
              entry_minutes entry)
         | None \<Rightarrow>
             (\<lparr>r_date = date, r_weekday = weekday,
               r_check_in = (if isWeekend then ''---'' else []),
               r_check_out = (if isWeekend then ''---'' else []),
               r_total = Some [], r_comment = []\<rparr>,
              Some 0))"

text \<open>\<open>totalMinutesMonth += minutes\<close>, where a time outside the fragment poisons the sum.\<close>

definition add_minutes :: "int option \<Rightarrow> int option \<Rightarrow> int option" where
  "add_minutes a b = (case (a, b) of (Some x, Some y) \<Rightarrow> Some (x + y) | _ \<Rightarrow> None)"

definition sum_minutes :: "int option list \<Rightarrow> int option" where
  "sum_minutes ms = fold (\<lambda>m acc. add_minutes acc m) ms (Some 0)"

text \<open>\<open>_createMonthSheet\<close>: a row for each day of the month and the \<open>TOTAL\<close> cell.\<close>

definition createMonthSheet :: "month_info \<Rightarrow> (string \<rightharpoonup> entry) \<Rightarrow> month_sheet" where
  "createMonthSheet mi entriesMap =
     (let daysInMonth = days_in_month (Date_year (year mi)) (month mi);
          cells = map (day_cells mi entriesMap) [1..<Suc daysInMonth]
      in \<lparr>sheet_name = monthName mi @ '' '' @ show_nat (year mi),
          sheet_rows = map fst cells,
          sheet_total = map_option format_total (sum_minutes (map snd cells))\<rparr>)"

text \<open>\<open>entries.forEach(entry => entriesMap.set(entry.date, entry))\<close>.\<close>

definition entries_map :: "entry list \<Rightarrow> (string \<rightharpoonup> entry)" where
  "entries_map es = fold (\<lambda>e m. m(date e \<mapsto> e)) es Map.empty"

text \<open>
  \<open>SELECT * FROM entries WHERE user_id = ? AND date >= ? AND date <= ? ORDER BY date
  ASC\<close>. SQL leaves the order of rows with equal dates open; here they stay in
  insertion order.
\<close>

definition select_range :: "nat \<Rightarrow> string \<Rightarrow> string \<Rightarrow> store \<Rightarrow> entry list" where
  "select_range u startDate endDate s =
     sort_key date
       (filter (\<lambda>e. user_id e = u \<and> startDate \<le> date e \<and> date e \<le> endDate) (entries s))"

text \<open>The sheets of \<open>generateReport\<close>, from the rows selected and the two dates parsed.\<close>

definition report_sheets :: "entry list \<Rightarrow> js_date \<Rightarrow> js_date \<Rightarrow> worksheet list" where
  "report_sheets es start e =
     (let months = getMonthsInRange start e;
          entriesMap = entries_map es;
          sheets = map (\<lambda>monthInfo. Month (createMonthSheet monthInfo entriesMap)) months
      in if sheets = [] then [No_data] else sheets)"

definition generateReport :: "store \<Rightarrow> nat \<Rightarrow> string \<Rightarrow> string \<Rightarrow> worksheet list option" where
  "generateReport s userId startDate endDate =
     (case (parse_iso_date startDate, parse_iso_date endDate) of
        (Some start, Some e) \<Rightarrow> Some (report_sheets (select_range userId startDate endDate s) start e)
      | _ \<Rightarrow> None)"

text \<open>\<open>generateMonthRangeReport\<close>, which builds the two date strings from months.\<close>

definition generateMonthRangeReport ::
  "store \<Rightarrow> nat \<Rightarrow> nat \<Rightarrow> nat \<Rightarrow> nat \<Rightarrow> nat \<Rightarrow> worksheet list option" where
  "generateMonthRangeReport s userId startYear startMonth endYear endMonth =
     (let startDate = show_nat startYear @ ''-'' @ padStart2 (show_nat startMonth) @ ''-01'';
          lastDay = days_in_month (Date_year endYear) endMonth;
          endDate = show_nat endYear @ ''-'' @ padStart2 (show_nat endMonth) @ ''-''
                      @ show_nat lastDay
      in generateReport s userId startDate endDate)"

text \<open>
  For the statements about the report: the months of a date counted from year 0, the
  dates a \<open>Date\<close> can hold, and the weekend days.
\<close>

definition month_index :: "js_date \<Rightarrow> nat" where
  "month_index d = d_year d * 12 + d_month d"

definition valid_date :: "js_date \<Rightarrow> bool" where
  "valid_date d =
     (d_month d < 12 \<and> 1 \<le> d_day d \<and> d_day d \<le> days_in_month (d_year d) (d_month d + 1))"

definition is_weekend :: "nat \<Rightarrow> nat \<Rightarrow> nat \<Rightarrow> bool" where
  "is_weekend y m d = (day_of_week y m d = 0 \<or> day_of_week y m d = 6)"

text \<open>The name of a sheet and the number of its day rows.\<close>

fun sheet_summary :: "worksheet \<Rightarrow> string \<times> nat" where
  "sheet_summary (Month sh) = (sheet_name sh, length (sheet_rows sh))"
| "sheet_summary No_data = (''No Data'', 0)"



text \<open>Example inputs for the closed instances below.\<close>

definition clock_0900 :: clock where
  "clock_0900 = \<lparr>iso_date = ''2026-03-10'', hours = 9, minutes = 0\<rparr>"

definition clock_1730 :: clock where
  "clock_1730 = \<lparr>iso_date = ''2026-03-10'', hours = 17, minutes = 30\<rparr>"

definition request_1 :: request where
  "request_1 = \<lparr>req_user = 1, req_date = Some ''2026-03-10'', req_time = None,
                 req_timezone = Some ''Europe/Vienna'', req_comment = Some ''inventory''\<rparr>"

definition row_open :: entry where
  "row_open = \<lparr>e_id = 1, user_id = 1, date = ''2026-03-10'', check_in = Some ''09:00'',
               check_out = None, comment = None, timezone = Some ''Europe/Vienna''\<rparr>"

definition row_closed :: entry where
  "row_closed = \<lparr>e_id = 1, user_id = 1, date = ''2026-03-10'', check_in = Some ''09:00'',
               check_out = Some ''17:30'', comment = Some ''inventory'',
               timezone = Some ''Europe/Vienna''\<rparr>"

definition row_open_no_tz :: entry where
  "row_open_no_tz = \<lparr>e_id = 1, user_id = 1, date = ''2026-03-10'', check_in = Some ''09:00'',
               check_out = None, comment = None, timezone = None\<rparr>"

definition request_2 :: request where
  "request_2 = \<lparr>req_user = 1, req_date = Some ''2026-03-10'', req_time = Some ''17:30'',
                 req_timezone = Some ''Asia/Tokyo'', req_comment = None\<rparr>"

definition request_early :: request where
  "request_early = \<lparr>req_user = 1, req_date = Some ''2026-03-10'', req_time = Some ''08:30'',
                 req_timezone = None, req_comment = None\<rparr>"

definition jan_1 :: js_date where
  "jan_1 = \<lparr>d_year = 2026, d_month = 0, d_day = 1\<rparr>"

definition feb_28 :: js_date where
  "feb_28 = \<lparr>d_year = 2026, d_month = 1, d_day = 28\<rparr>"









definition clock_utc :: clock where
  "clock_utc = \<lparr>iso_date = ''2026-03-11'', hours = 0, minutes = 15\<rparr>"

definition request_in :: request where
  "request_in = \<lparr>req_user = 1, req_date = Some ''2026-03-10'', req_time = Some ''09:00'',
                  req_timezone = Some ''Europe/Vienna'', req_comment = None\<rparr>"

definition row_second :: entry where
  "row_second = \<lparr>e_id = 2, user_id = 1, date = ''2026-03-10'', check_in = Some ''09:00'',
               check_out = Some ''17:30'', comment = None, timezone = Some ''Europe/Vienna''\<rparr>"

definition store_of :: "entry list \<Rightarrow> store" where
  "store_of rows = \<lparr>entries = rows, seq = length rows\<rparr>"

definition row_no_check_in :: entry where
  "row_no_check_in = \<lparr>e_id = 1, user_id = 1, date = ''2026-03-10'', check_in = None,
               check_out = Some ''17:00'', comment = None, timezone = None\<rparr>"

section \<open>Properties\<close>

subsection \<open>Row ids and the latest row\<close>

lemma fold_max_ge: "a \<le> fold max xs (a::nat) \<and> (\<forall>x\<in>set xs. x \<le> fold max xs a)"
proof (induction xs arbitrary: a)
  case Nil
  show ?case by simp
next
  case (Cons y ys)
  have 1: "max y a \<le> fold max ys (max y a)" using Cons.IH by blast
  have 2: "\<forall>x\<in>set ys. x \<le> fold max ys (max y a)" using Cons.IH by blast
  from 1 2 show ?case by auto
qed

lemma next_rowid_fresh: "e \<in> set (entries s) \<Longrightarrow> e_id e < next_rowid s"
  using fold_max_ge [of "seq s" "map e_id (entries s)"]
  by (auto simp: next_rowid_def less_Suc_eq_le)

lemma newest_mem: "newest xs = Some e \<Longrightarrow> e \<in> set xs"
  by (induction xs arbitrary: e) (auto split: option.splits if_splits)

lemma newest_None: "(newest xs = None) = (xs = [])"
  by (cases xs) (auto split: option.splits)

lemma newest_is_max: "newest xs = Some m \<Longrightarrow> x \<in> set xs \<Longrightarrow> e_id x \<le> e_id m"
  by (induction xs arbitrary: m) (auto simp: newest_None split: option.splits if_splits)

lemma newest_snoc_fresh:
  "\<forall>e\<in>set xs. e_id e < e_id n \<Longrightarrow> newest (xs @ [n]) = Some n"
  by (induction xs) (auto split: option.splits)

lemma newest_map:
  "(\<And>e. e_id (f e) = e_id e) \<Longrightarrow> newest (map f xs) = map_option f (newest xs)"
  by (induction xs) (auto split: option.splits)

lemma select_latest_insert_same:
  "select_latest u d (snd (insert_entry u d t tz s)) =
     Some \<lparr>e_id = next_rowid s, user_id = u, date = d, check_in = Some t, check_out = None,
           comment = None, timezone = tz\<rparr>"
proof -
  let ?n = "\<lparr>e_id = next_rowid s, user_id = u, date = d, check_in = Some t, check_out = None,
           comment = None, timezone = tz\<rparr>"
  let ?P = "\<lambda>e. user_id e = u \<and> date e = d"
  have "\<forall>e\<in>set (filter ?P (entries s)). e_id e < e_id ?n"
    by (simp add: next_rowid_fresh)
  then have "newest (filter ?P (entries s) @ [?n]) = Some ?n"
    by (rule newest_snoc_fresh)
  then show ?thesis
    by (simp add: select_latest_def insert_entry_def Let_def)
qed

lemma select_latest_insert_other:
  "(u', d') \<noteq> (u, d) \<Longrightarrow>
   select_latest u' d' (snd (insert_entry u d t tz s)) = select_latest u' d' s"
  by (auto simp: select_latest_def insert_entry_def Let_def)

lemma select_latest_map:
  assumes "\<And>e. e_id (f e) = e_id e" "\<And>e. user_id (f e) = user_id e" "\<And>e. date (f e) = date e"
  shows "select_latest u d (s\<lparr>entries := map f (entries s)\<rparr>) = map_option f (select_latest u d s)"
proof -
  have "filter (\<lambda>e. user_id e = u \<and> date e = d) (map f (entries s)) =
        map f (filter (\<lambda>e. user_id e = u \<and> date e = d) (entries s))"
    by (simp add: filter_map o_def assms)
  then show ?thesis
    by (simp add: select_latest_def newest_map assms(1))
qed

lemma select_latest_clock_out:
  "select_latest u' d' (update_clock_out t cm tz i u s) =
   map_option (\<lambda>e. if e_id e = i \<and> user_id e = u
                   then e\<lparr>check_out := Some t, comment := cm,
                          timezone := coalesce (timezone e) tz\<rparr>
                   else e) (select_latest u' d' s)"
  unfolding update_clock_out_def by (rule select_latest_map) auto

lemma select_latest_toggle_out:
  "select_latest u' d' (update_toggle_out t tz i u s) =
   map_option (\<lambda>e. if e_id e = i \<and> user_id e = u
                   then e\<lparr>check_out := Some t, timezone := coalesce (timezone e) tz\<rparr>
                   else e) (select_latest u' d' s)"
  unfolding update_toggle_out_def by (rule select_latest_map) auto

lemma select_latest_user: "select_latest u d s = Some e \<Longrightarrow> user_id e = u \<and> date e = d \<and> e \<in> set (entries s)"
  using newest_mem [of "filter (\<lambda>e. user_id e = u \<and> date e = d) (entries s)" e]
  by (simp add: select_latest_def)

lemma select_latest_None:
  "(select_latest u d s = None) = (\<forall>e\<in>set (entries s). \<not> (user_id e = u \<and> date e = d))"
  by (auto simp: select_latest_def newest_None filter_empty_conv)

lemma clock_out_not_clocked_in:
  assumes "\<forall>e\<in>set (entries s). user_id e = req_user rq \<and> date e = today_of c rq \<longrightarrow> \<not> truthy (check_in e)"
  shows "clock_out c rq s = (s, Inl Not_clocked_in)"
proof (cases "select_latest (req_user rq) (today_of c rq) s")
  case None
  then show ?thesis by (simp add: clock_out_def Let_def)
next
  case (Some e)
  with assms select_latest_user [OF Some] have "\<not> truthy (check_in e)" by blast
  with Some show ?thesis by (simp add: clock_out_def Let_def)
qed

lemma clock_out_already:
  assumes "select_latest (req_user rq) (today_of c rq) s = Some e" "truthy (check_in e)" "truthy (check_out e)"
  shows "clock_out c rq s = (s, Inl Already_clocked_out)"
  using assms by (simp add: clock_out_def Let_def)

lemma clock_out_failure_frame:
  "snd (clock_out c rq s) = Inl err \<Longrightarrow> fst (clock_out c rq s) = s"
  by (auto simp: clock_out_def Let_def split: option.splits if_splits)

lemma clock_out_success:
  assumes "snd (clock_out c rq s) = Inr r"
  shows "\<exists>e. select_latest (req_user rq) (today_of c rq) s = Some e \<and> checkedIn e \<and>
             r = ClockOut_ok (now_of c rq) \<and>
             fst (clock_out c rq s) =
               update_clock_out (now_of c rq) (or_null (req_comment rq))
                 (or_null (req_timezone rq)) (e_id e) (req_user rq) s"
  using assms by (auto simp: clock_out_def Let_def checkedIn_def split: option.splits if_splits)

lemma clock_out_success_latest:
  assumes "snd (clock_out c rq s) = Inr r"
  shows "\<exists>e. select_latest (req_user rq) (today_of c rq) s = Some e \<and> checkedIn e \<and>
             r = ClockOut_ok (now_of c rq) \<and>
             select_latest (req_user rq) (today_of c rq) (fst (clock_out c rq s)) =
               Some (e\<lparr>check_out := Some (now_of c rq), comment := or_null (req_comment rq),
                       timezone := coalesce (timezone e) (or_null (req_timezone rq))\<rparr>)"
proof -
  from clock_out_success [OF assms] obtain e where
    e: "select_latest (req_user rq) (today_of c rq) s = Some e" "checkedIn e"
       "r = ClockOut_ok (now_of c rq)"
       "fst (clock_out c rq s) =
               update_clock_out (now_of c rq) (or_null (req_comment rq))
                 (or_null (req_timezone rq)) (e_id e) (req_user rq) s"
    by blast
  have "user_id e = req_user rq" using select_latest_user [OF e(1)] by simp
  with e show ?thesis by (simp add: select_latest_clock_out)
qed

lemma update_clock_out_frame:
  "length (entries (update_clock_out t cm tz i u s)) = length (entries s) \<and>
   seq (update_clock_out t cm tz i u s) = seq s \<and>
   (\<forall>r\<in>set (entries s). e_id r \<noteq> i \<longrightarrow> r \<in> set (entries (update_clock_out t cm tz i u s)))"
  by (auto simp: update_clock_out_def image_iff)


subsection \<open>Clock-in\<close>

lemma now_of_nonempty: "now_of c rq \<noteq> []"
  by (simp add: now_of_def or_str_def time_hm_def split: option.splits)

lemma clock_in_cases:
  "if state_OPEN (req_user rq) (today_of c rq) s
   then clock_in c rq s = (s, Inl Already_clocked_in)
   else (\<exists>s'. clock_in c rq s = (s', Inr (ClockIn_ok (next_rowid s) (now_of c rq))) \<and>
           entries s' = entries s @
             [\<lparr>e_id = next_rowid s, user_id = req_user rq, date = today_of c rq,
               check_in = Some (now_of c rq), check_out = None, comment = None,
               timezone = or_null (req_timezone rq)\<rparr>] \<and>
           (\<forall>e \<in> set (entries s). e_id e < next_rowid s) \<and>
           state_OPEN (req_user rq) (today_of c rq) s')"
proof (cases "state_OPEN (req_user rq) (today_of c rq) s")
  case True
  then show ?thesis
    by (auto simp: clock_in_def state_OPEN_def checkedIn_def Let_def split: option.splits)
next
  case False
  let ?s' = "snd (insert_entry (req_user rq) (today_of c rq) (now_of c rq)
                   (or_null (req_timezone rq)) s)"
  from False have run: "clock_in c rq s = (?s', Inr (ClockIn_ok (next_rowid s) (now_of c rq)))"
    by (auto simp: clock_in_def state_OPEN_def checkedIn_def Let_def insert_entry_def
             split: option.splits)
  have rows: "entries ?s' = entries s @
             [\<lparr>e_id = next_rowid s, user_id = req_user rq, date = today_of c rq,
               check_in = Some (now_of c rq), check_out = None, comment = None,
               timezone = or_null (req_timezone rq)\<rparr>]"
    by (simp add: insert_entry_def Let_def)
  have "state_OPEN (req_user rq) (today_of c rq) ?s'"
    by (simp add: state_OPEN_def select_latest_insert_same checkedIn_def truthy_def
                  now_of_nonempty)
  with False run rows show ?thesis
    by (simp add: next_rowid_fresh)
qed

lemma today_of_sent: "req_date rq = Some d \<Longrightarrow> d \<noteq> [] \<Longrightarrow> today_of c rq = d"
  by (simp add: today_of_def or_str_def)

lemma today_of_default: "\<not> truthy (req_date rq) \<Longrightarrow> today_of c rq = iso_date c"
  by (simp add: today_of_def or_str_def truthy_def split: option.splits)

lemma now_of_sent: "req_time rq = Some t \<Longrightarrow> t \<noteq> [] \<Longrightarrow> now_of c rq = t"
  by (simp add: now_of_def or_str_def)

lemma now_of_default: "\<not> truthy (req_time rq) \<Longrightarrow> now_of c rq = time_hm c"
  by (simp add: now_of_def or_str_def truthy_def split: option.splits)

lemma or_null_cases:
  "or_null tz = (case tz of None \<Rightarrow> None | Some z \<Rightarrow> if z = [] then None else Some z)"
  by (simp add: or_null_def)

text \<open>
  Claim C2. Clock-in answers \<open>Already clocked in\<close> exactly when the latest row of
  the user's day exists, has a check-in and has no check-out (the day is \<open>OPEN\<close>),
  and then writes nothing. Otherwise it appends one row with the next row id, the
  check-in time, no check-out, no comment and the timezone of the request (none when
  the request has none or an empty one), and the day is \<open>OPEN\<close> afterwards. The day
  and the time are those of the request: for a request that sends the date \<open>d\<close> and
  the time \<open>t\<close>, the day tested and opened is \<open>d\<close> and the check-in stored and
  returned is \<open>t\<close>. Only a date or time that the request leaves out (or sends empty)
  is read from the server's clock.
\<close>

theorem clock_in_contract:
  "(\<forall>d t. req_date rq = Some d \<and> d \<noteq> [] \<and> req_time rq = Some t \<and> t \<noteq> [] \<longrightarrow>
      (if state_OPEN (req_user rq) d s
       then clock_in c rq s = (s, Inl Already_clocked_in)
       else (\<exists>s'. clock_in c rq s = (s', Inr (ClockIn_ok (next_rowid s) t)) \<and>
               entries s' = entries s @
                 [\<lparr>e_id = next_rowid s, user_id = req_user rq, date = d,
                   check_in = Some t, check_out = None, comment = None,
                   timezone = (case req_timezone rq of None \<Rightarrow> None
                               | Some z \<Rightarrow> if z = [] then None else Some z)\<rparr>] \<and>
               (\<forall>e \<in> set (entries s). e_id e < next_rowid s) \<and>
               state_OPEN (req_user rq) d s'))) \<and>
   (if state_OPEN (req_user rq) (today_of c rq) s
    then clock_in c rq s = (s, Inl Already_clocked_in)
    else (\<exists>s'. clock_in c rq s = (s', Inr (ClockIn_ok (next_rowid s) (now_of c rq))) \<and>
            entries s' = entries s @
              [\<lparr>e_id = next_rowid s, user_id = req_user rq, date = today_of c rq,
                check_in = Some (now_of c rq), check_out = None, comment = None,
                timezone = or_null (req_timezone rq)\<rparr>] \<and>
            (\<forall>e \<in> set (entries s). e_id e < next_rowid s) \<and>
            state_OPEN (req_user rq) (today_of c rq) s')) \<and>
   (\<forall>d. req_date rq = Some d \<and> d \<noteq> [] \<longrightarrow> today_of c rq = d) \<and>
   (\<not> truthy (req_date rq) \<longrightarrow> today_of c rq = iso_date c) \<and>
   (\<forall>t. req_time rq = Some t \<and> t \<noteq> [] \<longrightarrow> now_of c rq = t) \<and>
   (\<not> truthy (req_time rq) \<longrightarrow> now_of c rq = time_hm c)"
proof (intro conjI allI impI)
  fix d t
  assume a: "req_date rq = Some d \<and> d \<noteq> [] \<and> req_time rq = Some t \<and> t \<noteq> []"
  then have d: "today_of c rq = d" and t: "now_of c rq = t"
    by (simp_all add: today_of_sent now_of_sent)
  from clock_in_cases [of rq c s]
  show "if state_OPEN (req_user rq) d s
       then clock_in c rq s = (s, Inl Already_clocked_in)
       else (\<exists>s'. clock_in c rq s = (s', Inr (ClockIn_ok (next_rowid s) t)) \<and>
               entries s' = entries s @
                 [\<lparr>e_id = next_rowid s, user_id = req_user rq, date = d,
                   check_in = Some t, check_out = None, comment = None,
                   timezone = (case req_timezone rq of None \<Rightarrow> None
                               | Some z \<Rightarrow> if z = [] then None else Some z)\<rparr>] \<and>
               (\<forall>e \<in> set (entries s). e_id e < next_rowid s) \<and>
               state_OPEN (req_user rq) d s')"
    unfolding d t or_null_cases .
next
  show "if state_OPEN (req_user rq) (today_of c rq) s
    then clock_in c rq s = (s, Inl Already_clocked_in)
    else (\<exists>s'. clock_in c rq s = (s', Inr (ClockIn_ok (next_rowid s) (now_of c rq))) \<and>
            entries s' = entries s @
              [\<lparr>e_id = next_rowid s, user_id = req_user rq, date = today_of c rq,
                check_in = Some (now_of c rq), check_out = None, comment = None,
                timezone = or_null (req_timezone rq)\<rparr>] \<and>
            (\<forall>e \<in> set (entries s). e_id e < next_rowid s) \<and>
            state_OPEN (req_user rq) (today_of c rq) s')"
    by (rule clock_in_cases)
qed (simp_all add: today_of_sent today_of_default now_of_sent now_of_default)

theorem clock_in_contract_witness:
  "req_date request_in = Some ''2026-03-10'' \<and> req_time request_in = Some ''09:00'' \<and>
   iso_date clock_utc = ''2026-03-11'' \<and> time_hm clock_utc = ''00:15'' \<and>
   \<not> state_OPEN (req_user request_in) ''2026-03-10'' empty_store \<and>
   (\<exists>s'. clock_in clock_utc request_in empty_store =
           (s', Inr (ClockIn_ok (next_rowid empty_store) ''09:00'')) \<and>
         state_OPEN (req_user request_in) ''2026-03-10'' s') \<and>
   clock_in clock_utc request_in empty_store =
     (\<lparr>entries = [row_open], seq = 1\<rparr>, Inr (ClockIn_ok 1 ''09:00'')) \<and>
   state_OPEN 1 ''2026-03-10'' \<lparr>entries = [row_open], seq = 1\<rparr> \<and>
   \<not> state_OPEN 1 ''2026-03-11'' \<lparr>entries = [row_open], seq = 1\<rparr> \<and>
   clock_in clock_utc request_2 \<lparr>entries = [row_open], seq = 1\<rparr> =
     (\<lparr>entries = [row_open], seq = 1\<rparr>, Inl Already_clocked_in) \<and>
   \<not> truthy (req_time request_1) \<and>
   now_of clock_0900 request_1 = time_hm clock_0900 \<and>
   clock_in clock_0900 request_1 empty_store =
     (\<lparr>entries = [row_open], seq = 1\<rparr>, Inr (ClockIn_ok 1 ''09:00''))"
proof -
  note t1 = clock_in_contract [of request_in empty_store clock_utc]
  note t2 = clock_in_contract [of request_2 "\<lparr>entries = [row_open], seq = 1\<rparr>" clock_utc]
  note t3 = clock_in_contract [of request_1 empty_store clock_0900]
  have sent: "req_date request_in = Some ''2026-03-10'' \<and> ''2026-03-10'' \<noteq> [] \<and>
              req_time request_in = Some ''09:00'' \<and> ''09:00'' \<noteq> []"
    by code_simp
  have sent2: "req_date request_2 = Some ''2026-03-10'' \<and> ''2026-03-10'' \<noteq> [] \<and>
              req_time request_2 = Some ''17:30'' \<and> ''17:30'' \<noteq> []"
    by code_simp
  have clk: "iso_date clock_utc = ''2026-03-11'' \<and> time_hm clock_utc = ''00:15''"
    by code_simp
  have none: "\<not> state_OPEN (req_user request_in) ''2026-03-10'' empty_store"
    by code_simp
  have opened: "state_OPEN (req_user request_2) ''2026-03-10''
                  \<lparr>entries = [row_open], seq = 1\<rparr> \<and>
                state_OPEN 1 ''2026-03-10'' \<lparr>entries = [row_open], seq = 1\<rparr> \<and>
                \<not> state_OPEN 1 ''2026-03-11'' \<lparr>entries = [row_open], seq = 1\<rparr>"
    by code_simp
  have first: "clock_in clock_utc request_in empty_store =
     (\<lparr>entries = [row_open], seq = 1\<rparr>, Inr (ClockIn_ok 1 ''09:00''))"
    by code_simp
  have dflt: "\<not> truthy (req_time request_1)"
    by code_simp
  have third: "clock_in clock_0900 request_1 empty_store =
     (\<lparr>entries = [row_open], seq = 1\<rparr>, Inr (ClockIn_ok 1 ''09:00''))"
    by code_simp
  from t1 sent none
  have 1: "\<exists>s'. clock_in clock_utc request_in empty_store =
           (s', Inr (ClockIn_ok (next_rowid empty_store) ''09:00'')) \<and>
         state_OPEN (req_user request_in) ''2026-03-10'' s'"
    by (auto split: if_splits)
  from t2 sent2 opened
  have 2: "clock_in clock_utc request_2 \<lparr>entries = [row_open], seq = 1\<rparr> =
     (\<lparr>entries = [row_open], seq = 1\<rparr>, Inl Already_clocked_in)"
    by (auto split: if_splits)
  from t3 dflt have 3: "now_of clock_0900 request_1 = time_hm clock_0900"
    by blast
  from sent clk none 1 2 3 first opened dflt third show ?thesis by blast
qed

subsection \<open>Clock-out\<close>

lemma clock_out_open:
  assumes "state_OPEN (req_user rq) (today_of c rq) s"
  shows "snd (clock_out c rq s) = Inr (ClockOut_ok (now_of c rq))"
  using assms
  by (auto simp: clock_out_def Let_def state_OPEN_def checkedIn_def split: option.splits)

text \<open>
  The claim C3 as written asks for \<open>Already clocked out\<close> whenever the latest row
  has a check-out. The handler tests the check-in first: a latest row with a check-out
  and no check-in (an edited row) is answered \<open>Not clocked in\<close>.
\<close>

theorem clock_out_contract_counterexample:
  "select_latest (req_user request_2) (today_of clock_1730 request_2)
     (store_of [row_no_check_in]) = Some row_no_check_in \<and>
   truthy (check_out row_no_check_in) \<and>
   clock_out clock_1730 request_2 (store_of [row_no_check_in]) =
     (store_of [row_no_check_in], Inl Not_clocked_in) \<and>
   clock_out clock_1730 request_2 (store_of [row_no_check_in]) \<noteq>
     (store_of [row_no_check_in], Inl Already_clocked_out)"
  by code_simp

lemma clock_out_cases:
  "((\<forall>e\<in>set (entries s). user_id e = req_user rq \<and> date e = today_of c rq \<longrightarrow>
        \<not> truthy (check_in e)) \<longrightarrow>
      clock_out c rq s = (s, Inl Not_clocked_in)) \<and>
   (\<forall>e. select_latest (req_user rq) (today_of c rq) s = Some e \<and>
        truthy (check_in e) \<and> truthy (check_out e) \<longrightarrow>
      clock_out c rq s = (s, Inl Already_clocked_out)) \<and>
   (\<forall>err. snd (clock_out c rq s) = Inl err \<longrightarrow> fst (clock_out c rq s) = s) \<and>
   (state_OPEN (req_user rq) (today_of c rq) s \<longrightarrow>
      snd (clock_out c rq s) = Inr (ClockOut_ok (now_of c rq))) \<and>
   (\<forall>r. snd (clock_out c rq s) = Inr r \<longrightarrow>
      (\<exists>e. select_latest (req_user rq) (today_of c rq) s = Some e \<and> checkedIn e \<and>
           r = ClockOut_ok (now_of c rq) \<and>
           select_latest (req_user rq) (today_of c rq) (fst (clock_out c rq s)) =
             Some (e\<lparr>check_out := Some (now_of c rq), comment := or_null (req_comment rq),
                     timezone := coalesce (timezone e) (or_null (req_timezone rq))\<rparr>)))"
proof (intro conjI allI impI)
  fix e
  assume "select_latest (req_user rq) (today_of c rq) s = Some e \<and>
        truthy (check_in e) \<and> truthy (check_out e)"
  then show "clock_out c rq s = (s, Inl Already_clocked_out)"
    using clock_out_already by blast
qed (simp_all add: clock_out_not_clocked_in clock_out_failure_frame clock_out_open
       clock_out_success_latest)

text \<open>
  Claim C3, amended. Clock-out answers \<open>Not clocked in\<close> when no row of the user's day
  has a check-in, and \<open>Already clocked out\<close> when the latest row of the day has a
  check-in and a check-out; a failed clock-out leaves the table as it was. When the
  day is \<open>OPEN\<close> it succeeds, and every success has written the check-out time (the
  client's, or the server's clock) and the comment of the request into the latest row of
  the day, which stays the latest row. The day and the time are those of the request:
  for a request that sends the date \<open>d\<close> and the time \<open>t\<close>, the day examined is
  \<open>d\<close> and the check-out written and returned is \<open>t\<close>; only a date or time that the
  request leaves out (or sends empty) is read from the server's clock.
\<close>

theorem clock_out_contract:
  "(((\<forall>e\<in>set (entries s). user_id e = req_user rq \<and> date e = today_of c rq \<longrightarrow>
        \<not> truthy (check_in e)) \<longrightarrow>
      clock_out c rq s = (s, Inl Not_clocked_in)) \<and>
   (\<forall>e. select_latest (req_user rq) (today_of c rq) s = Some e \<and>
        truthy (check_in e) \<and> truthy (check_out e) \<longrightarrow>
      clock_out c rq s = (s, Inl Already_clocked_out)) \<and>
   (\<forall>err. snd (clock_out c rq s) = Inl err \<longrightarrow> fst (clock_out c rq s) = s) \<and>
   (state_OPEN (req_user rq) (today_of c rq) s \<longrightarrow>
      snd (clock_out c rq s) = Inr (ClockOut_ok (now_of c rq))) \<and>
   (\<forall>r. snd (clock_out c rq s) = Inr r \<longrightarrow>
      (\<exists>e. select_latest (req_user rq) (today_of c rq) s = Some e \<and> checkedIn e \<and>
           r = ClockOut_ok (now_of c rq) \<and>
           select_latest (req_user rq) (today_of c rq) (fst (clock_out c rq s)) =
             Some (e\<lparr>check_out := Some (now_of c rq), comment := or_null (req_comment rq),
                     timezone := coalesce (timezone e) (or_null (req_timezone rq))\<rparr>))))
   \<and> (\<forall>d t. req_date rq = Some d \<and> d \<noteq> [] \<and> req_time rq = Some t \<and> t \<noteq> [] \<longrightarrow>
      ((\<forall>e\<in>set (entries s). user_id e = req_user rq \<and> date e = d \<longrightarrow>
           \<not> truthy (check_in e)) \<longrightarrow>
         clock_out c rq s = (s, Inl Not_clocked_in)) \<and>
      (\<forall>e. select_latest (req_user rq) d s = Some e \<and>
           truthy (check_in e) \<and> truthy (check_out e) \<longrightarrow>
         clock_out c rq s = (s, Inl Already_clocked_out)) \<and>
      (state_OPEN (req_user rq) d s \<longrightarrow>
         (\<exists>e. select_latest (req_user rq) d s = Some e \<and> checkedIn e \<and>
              snd (clock_out c rq s) = Inr (ClockOut_ok t) \<and>
              select_latest (req_user rq) d (fst (clock_out c rq s)) =
                Some (e\<lparr>check_out := Some t, comment := or_null (req_comment rq),
                        timezone := coalesce (timezone e) (or_null (req_timezone rq))\<rparr>))))
   \<and> (\<forall>d. req_date rq = Some d \<and> d \<noteq> [] \<longrightarrow> today_of c rq = d)
   \<and> (\<not> truthy (req_date rq) \<longrightarrow> today_of c rq = iso_date c)
   \<and> (\<forall>t. req_time rq = Some t \<and> t \<noteq> [] \<longrightarrow> now_of c rq = t)
   \<and> (\<not> truthy (req_time rq) \<longrightarrow> now_of c rq = time_hm c)"
proof -
  have O: "((\<forall>e\<in>set (entries s). user_id e = req_user rq \<and> date e = today_of c rq \<longrightarrow>
        \<not> truthy (check_in e)) \<longrightarrow>
      clock_out c rq s = (s, Inl Not_clocked_in)) \<and>
   (\<forall>e. select_latest (req_user rq) (today_of c rq) s = Some e \<and>
        truthy (check_in e) \<and> truthy (check_out e) \<longrightarrow>
      clock_out c rq s = (s, Inl Already_clocked_out)) \<and>
   (\<forall>err. snd (clock_out c rq s) = Inl err \<longrightarrow> fst (clock_out c rq s) = s) \<and>
   (state_OPEN (req_user rq) (today_of c rq) s \<longrightarrow>
      snd (clock_out c rq s) = Inr (ClockOut_ok (now_of c rq))) \<and>
   (\<forall>r. snd (clock_out c rq s) = Inr r \<longrightarrow>
      (\<exists>e. select_latest (req_user rq) (today_of c rq) s = Some e \<and> checkedIn e \<and>
           r = ClockOut_ok (now_of c rq) \<and>
           select_latest (req_user rq) (today_of c rq) (fst (clock_out c rq s)) =
             Some (e\<lparr>check_out := Some (now_of c rq), comment := or_null (req_comment rq),
                     timezone := coalesce (timezone e) (or_null (req_timezone rq))\<rparr>)))"
    by (rule clock_out_cases)
  have N: "(\<forall>d t. req_date rq = Some d \<and> d \<noteq> [] \<and> req_time rq = Some t \<and> t \<noteq> [] \<longrightarrow>
      ((\<forall>e\<in>set (entries s). user_id e = req_user rq \<and> date e = d \<longrightarrow>
           \<not> truthy (check_in e)) \<longrightarrow>
         clock_out c rq s = (s, Inl Not_clocked_in)) \<and>
      (\<forall>e. select_latest (req_user rq) d s = Some e \<and>
           truthy (check_in e) \<and> truthy (check_out e) \<longrightarrow>
         clock_out c rq s = (s, Inl Already_clocked_out)) \<and>
      (state_OPEN (req_user rq) d s \<longrightarrow>
         (\<exists>e. select_latest (req_user rq) d s = Some e \<and> checkedIn e \<and>
              snd (clock_out c rq s) = Inr (ClockOut_ok t) \<and>
              select_latest (req_user rq) d (fst (clock_out c rq s)) =
                Some (e\<lparr>check_out := Some t, comment := or_null (req_comment rq),
                        timezone := coalesce (timezone e) (or_null (req_timezone rq))\<rparr>))))"
  proof (intro allI impI)
    fix d t
    assume a: "req_date rq = Some d \<and> d \<noteq> [] \<and> req_time rq = Some t \<and> t \<noteq> []"
    then have d: "today_of c rq = d" and t: "now_of c rq = t"
      by (simp_all add: today_of_sent now_of_sent)
    have 1: "(\<forall>e\<in>set (entries s). user_id e = req_user rq \<and> date e = d \<longrightarrow>
           \<not> truthy (check_in e)) \<longrightarrow>
         clock_out c rq s = (s, Inl Not_clocked_in)"
      using clock_out_cases [of s rq c, THEN conjunct1] unfolding d .
    have 2: "\<forall>e. select_latest (req_user rq) d s = Some e \<and>
           truthy (check_in e) \<and> truthy (check_out e) \<longrightarrow>
         clock_out c rq s = (s, Inl Already_clocked_out)"
      using clock_out_cases [of s rq c, THEN conjunct2, THEN conjunct1] unfolding d .
    have 3: "state_OPEN (req_user rq) d s \<longrightarrow>
         (\<exists>e. select_latest (req_user rq) d s = Some e \<and> checkedIn e \<and>
              snd (clock_out c rq s) = Inr (ClockOut_ok t) \<and>
              select_latest (req_user rq) d (fst (clock_out c rq s)) =
                Some (e\<lparr>check_out := Some t, comment := or_null (req_comment rq),
                        timezone := coalesce (timezone e) (or_null (req_timezone rq))\<rparr>))"
      using clock_out_cases [of s rq c] unfolding d t by blast
    from 1 2 3 show "((\<forall>e\<in>set (entries s). user_id e = req_user rq \<and> date e = d \<longrightarrow>
           \<not> truthy (check_in e)) \<longrightarrow>
         clock_out c rq s = (s, Inl Not_clocked_in)) \<and>
      (\<forall>e. select_latest (req_user rq) d s = Some e \<and>
           truthy (check_in e) \<and> truthy (check_out e) \<longrightarrow>
         clock_out c rq s = (s, Inl Already_clocked_out)) \<and>
      (state_OPEN (req_user rq) d s \<longrightarrow>
         (\<exists>e. select_latest (req_user rq) d s = Some e \<and> checkedIn e \<and>
              snd (clock_out c rq s) = Inr (ClockOut_ok t) \<and>
              select_latest (req_user rq) d (fst (clock_out c rq s)) =
                Some (e\<lparr>check_out := Some t, comment := or_null (req_comment rq),
                        timezone := coalesce (timezone e) (or_null (req_timezone rq))\<rparr>)))"
      by (intro conjI)
  qed
  have D1: "(\<forall>d. req_date rq = Some d \<and> d \<noteq> [] \<longrightarrow> today_of c rq = d)"
    by (simp add: today_of_sent)
  have D2: "(\<not> truthy (req_date rq) \<longrightarrow> today_of c rq = iso_date c)"
    by (simp add: today_of_default)
  have D3: "(\<forall>t. req_time rq = Some t \<and> t \<noteq> [] \<longrightarrow> now_of c rq = t)"
    by (simp add: now_of_sent)
  have D4: "(\<not> truthy (req_time rq) \<longrightarrow> now_of c rq = time_hm c)"
    by (simp add: now_of_default)
  show ?thesis
    by (rule conjI [OF O conjI [OF N conjI [OF D1 conjI [OF D2 conjI [OF D3 D4]]]]])
qed

theorem clock_out_contract_witness:
  "clock_out clock_1730 request_2 empty_store = (empty_store, Inl Not_clocked_in) \<and>
   clock_out clock_1730 request_2 (store_of [row_closed]) =
     (store_of [row_closed], Inl Already_clocked_out) \<and>
   snd (clock_out clock_1730 request_1 (store_of [row_open])) = Inr (ClockOut_ok ''17:30'') \<and>
   select_latest (req_user request_1) (today_of clock_1730 request_1)
     (fst (clock_out clock_1730 request_1 (store_of [row_open]))) = Some row_closed \<and>
   iso_date clock_utc = ''2026-03-11'' \<and> time_hm clock_utc = ''00:15'' \<and>
   req_date request_2 = Some ''2026-03-10'' \<and> req_time request_2 = Some ''17:30'' \<and>
   state_OPEN 1 ''2026-03-10'' (store_of [row_open]) \<and>
   snd (clock_out clock_utc request_2 (store_of [row_open])) = Inr (ClockOut_ok ''17:30'') \<and>
   select_latest 1 ''2026-03-10'' (fst (clock_out clock_utc request_2 (store_of [row_open]))) =
     Some (row_open\<lparr>check_out := Some ''17:30''\<rparr>) \<and>
   select_latest 1 ''2026-03-11'' (fst (clock_out clock_utc request_2 (store_of [row_open]))) =
     None \<and>
   clock_out clock_utc request_2 (store_of [row_closed]) =
     (store_of [row_closed], Inl Already_clocked_out)"
proof -
  have a: "\<forall>e\<in>set (entries empty_store).
        user_id e = req_user request_2 \<and> date e = today_of clock_1730 request_2 \<longrightarrow>
        \<not> truthy (check_in e)"
    by (simp add: empty_store_def)
  have b: "select_latest (req_user request_2) (today_of clock_1730 request_2)
             (store_of [row_closed]) = Some row_closed \<and>
           truthy (check_in row_closed) \<and> truthy (check_out row_closed)"
    by code_simp
  have c: "state_OPEN (req_user request_1) (today_of clock_1730 request_1) (store_of [row_open])"
    by code_simp
  have d: "select_latest (req_user request_1) (today_of clock_1730 request_1)
             (store_of [row_open]) = Some row_open"
    by code_simp
  have e: "row_open\<lparr>check_out := Some (now_of clock_1730 request_1),
                    comment := or_null (req_comment request_1),
                    timezone := coalesce (timezone row_open) (or_null (req_timezone request_1))\<rparr>
           = row_closed"
    by code_simp
  have f: "now_of clock_1730 request_1 = ''17:30''"
    by code_simp
  note t1 = clock_out_contract [of empty_store request_2 clock_1730]
  note t2 = clock_out_contract [of "store_of [row_closed]" request_2 clock_1730]
  note t3 = clock_out_contract [of "store_of [row_open]" request_1 clock_1730]
  from t1 a have 1: "clock_out clock_1730 request_2 empty_store = (empty_store, Inl Not_clocked_in)"
    by blast
  from t2 b have 2: "clock_out clock_1730 request_2 (store_of [row_closed]) =
     (store_of [row_closed], Inl Already_clocked_out)"
    by blast
  from t3 c have 3: "snd (clock_out clock_1730 request_1 (store_of [row_open])) =
      Inr (ClockOut_ok (now_of clock_1730 request_1))"
    by blast
  with t3 d e have 4: "select_latest (req_user request_1) (today_of clock_1730 request_1)
     (fst (clock_out clock_1730 request_1 (store_of [row_open]))) = Some row_closed"
    by auto
  have clk: "iso_date clock_utc = ''2026-03-11'' \<and> time_hm clock_utc = ''00:15'' \<and>
      req_date request_2 = Some ''2026-03-10'' \<and> req_time request_2 = Some ''17:30''"
    by code_simp
  have sent: "req_date request_2 = Some ''2026-03-10'' \<and> ''2026-03-10'' \<noteq> [] \<and>
      req_time request_2 = Some ''17:30'' \<and> ''17:30'' \<noteq> []"
    by code_simp
  have u: "req_user request_2 = 1"
    by (simp add: request_2_def)
  note t4 = clock_out_contract [of "store_of [row_open]" request_2 clock_utc,
      THEN conjunct2, THEN conjunct1, rule_format, OF sent]
  note t5 = clock_out_contract [of "store_of [row_closed]" request_2 clock_utc,
      THEN conjunct2, THEN conjunct1, rule_format, OF sent]
  have op: "state_OPEN (req_user request_2) ''2026-03-10'' (store_of [row_open])"
    by code_simp
  have lat: "select_latest (req_user request_2) ''2026-03-10'' (store_of [row_open]) =
      Some row_open"
    by code_simp
  have upd: "row_open\<lparr>check_out := Some ''17:30'', comment := or_null (req_comment request_2),
        timezone := coalesce (timezone row_open) (or_null (req_timezone request_2))\<rparr> =
      row_open\<lparr>check_out := Some ''17:30''\<rparr>"
    by code_simp
  from t4 [THEN conjunct2, THEN conjunct2, rule_format, OF op] obtain e' where
    e': "select_latest (req_user request_2) ''2026-03-10'' (store_of [row_open]) = Some e'"
      "snd (clock_out clock_utc request_2 (store_of [row_open])) = Inr (ClockOut_ok ''17:30'')"
      "select_latest (req_user request_2) ''2026-03-10''
         (fst (clock_out clock_utc request_2 (store_of [row_open]))) =
       Some (e'\<lparr>check_out := Some ''17:30'', comment := or_null (req_comment request_2),
               timezone := coalesce (timezone e') (or_null (req_timezone request_2))\<rparr>)"
    by blast
  from e'(1) lat have ee: "e' = row_open" by simp
  from e'(3) have 5: "select_latest 1 ''2026-03-10''
      (fst (clock_out clock_utc request_2 (store_of [row_open]))) =
     Some (row_open\<lparr>check_out := Some ''17:30''\<rparr>)"
    unfolding ee upd by (simp add: u)
  from op have 6: "state_OPEN 1 ''2026-03-10'' (store_of [row_open])"
    by (simp add: u)
  have 7: "select_latest 1 ''2026-03-11''
      (fst (clock_out clock_utc request_2 (store_of [row_open]))) = None"
    by code_simp
  have b': "select_latest (req_user request_2) ''2026-03-10'' (store_of [row_closed]) =
             Some row_closed \<and>
           truthy (check_in row_closed) \<and> truthy (check_out row_closed)"
    by code_simp
  from t5 [THEN conjunct2, THEN conjunct1, rule_format, OF b']
  have 8: "clock_out clock_utc request_2 (store_of [row_closed]) =
     (store_of [row_closed], Inl Already_clocked_out)" .
  from 1 2 3 4 f clk 5 6 7 8 e'(2) show ?thesis by simp
qed


subsection \<open>Toggle, and the timezone of a row\<close>

lemma select_last_comment_insert:
  "select_last_comment u' (snd (insert_entry u d t tz s)) = select_last_comment u' s"
  by (simp add: select_last_comment_def insert_entry_def Let_def has_comment_def)

lemma toggle_check_in:
  assumes "case select_latest (req_user rq) (today_of c rq) s of
             None \<Rightarrow> True | Some e \<Rightarrow> truthy (check_out e)"
  shows "toggle c rq s =
     (snd (insert_entry (req_user rq) (today_of c rq) (now_of c rq) (or_null (req_timezone rq)) s),
      Inr (Toggle_in ''check-in'' (now_of c rq) (next_rowid s)
             (case select_last_comment (req_user rq) s of None \<Rightarrow> None | Some l \<Rightarrow> comment l)
             (case select_last_comment (req_user rq) s of None \<Rightarrow> None | Some l \<Rightarrow> Some (date l))))"
proof -
  have "select_last_comment (req_user rq)
          (snd (insert_entry (req_user rq) (today_of c rq) (now_of c rq) (or_null (req_timezone rq)) s))
        = select_last_comment (req_user rq) s"
    by (rule select_last_comment_insert)
  moreover have "fst (insert_entry (req_user rq) (today_of c rq) (now_of c rq) (or_null (req_timezone rq)) s)
        = next_rowid s"
    by (simp add: insert_entry_def Let_def)
  ultimately show ?thesis using assms
    by (simp add: toggle_def Let_def split_beta)
qed

lemma toggle_check_out:
  assumes "select_latest (req_user rq) (today_of c rq) s = Some e"
      and "check_in e = Some cin" and "cin \<noteq> []" and "\<not> truthy (check_out e)"
  shows "toggle c rq s =
     (update_toggle_out (now_of c rq) (or_null (req_timezone rq)) (e_id e) (req_user rq) s,
      Inr (Toggle_out ''check-out'' (now_of c rq) cin (now_of c rq)
             (duration_text cin (now_of c rq)) (e_id e)))"
  using assms by (simp add: toggle_def Let_def)

lemma toggle_unknown:
  assumes "select_latest (req_user rq) (today_of c rq) s = Some e"
      and "\<not> truthy (check_in e)" and "\<not> truthy (check_out e)"
  shows "toggle c rq s = (s, Inl Unknown_state)"
  using assms by (auto simp: toggle_def Let_def truthy_def split: option.splits)

lemma toggle_out_inv:
  assumes "snd (toggle c rq s) = Inr (Toggle_out a t ci co du i)"
  shows "\<exists>e. select_latest (req_user rq) (today_of c rq) s = Some e \<and> checkedIn e \<and>
             check_in e = Some ci \<and> i = e_id e \<and> a = ''check-out'' \<and> t = now_of c rq \<and>
             co = now_of c rq \<and> du = duration_text ci (now_of c rq) \<and>
             fst (toggle c rq s) =
               update_toggle_out (now_of c rq) (or_null (req_timezone rq)) (e_id e) (req_user rq) s"
  using assms
  by (auto simp: toggle_def Let_def split_beta checkedIn_def truthy_def
           split: option.splits if_splits)

lemma clock_out_columns:
  "map (\<lambda>e. (e_id e, user_id e, date e, check_in e)) (entries (fst (clock_out c rq s))) =
   map (\<lambda>e. (e_id e, user_id e, date e, check_in e)) (entries s)"
  by (auto simp: clock_out_def Let_def update_clock_out_def split: option.splits)

lemma toggle_out_columns:
  "map (\<lambda>e. (e_id e, user_id e, date e, check_in e))
       (entries (update_toggle_out t tz i u s)) =
   map (\<lambda>e. (e_id e, user_id e, date e, check_in e)) (entries s)"
  by (auto simp: update_toggle_out_def)

text \<open>
  Claim C4. A successful clock-out, and a toggle that checks out, leave the latest row
  of the day the latest row, with its timezone kept when the row had one and set to the
  timezone of the request only when the row had none (an absent or empty timezone in
  the request is stored as \<open>NULL\<close>); its check-in and date are as before. Clock-out
  changes the id, user, date and check-in of no row.
\<close>

theorem timezone_first_write_wins:
  "(\<forall>r. snd (clock_out c rq s) = Inr r \<longrightarrow>
      (\<exists>e e'. select_latest (req_user rq) (today_of c rq) s = Some e \<and>
         select_latest (req_user rq) (today_of c rq) (fst (clock_out c rq s)) = Some e' \<and>
         e_id e' = e_id e \<and>
         timezone e' = (case timezone e of Some z \<Rightarrow> Some z
                        | None \<Rightarrow> or_null (req_timezone rq)) \<and>
         check_in e' = check_in e \<and> date e' = date e)) \<and>
   (\<forall>a t ci co du i. snd (toggle c rq s) = Inr (Toggle_out a t ci co du i) \<longrightarrow>
      (\<exists>e e'. select_latest (req_user rq) (today_of c rq) s = Some e \<and>
         select_latest (req_user rq) (today_of c rq) (fst (toggle c rq s)) = Some e' \<and>
         e_id e' = e_id e \<and>
         timezone e' = (case timezone e of Some z \<Rightarrow> Some z
                        | None \<Rightarrow> or_null (req_timezone rq)) \<and>
         check_in e' = check_in e \<and> date e' = date e)) \<and>
   map (\<lambda>e. (e_id e, user_id e, date e, check_in e)) (entries (fst (clock_out c rq s))) =
   map (\<lambda>e. (e_id e, user_id e, date e, check_in e)) (entries s)"
proof (intro conjI allI impI)
  fix r
  assume "snd (clock_out c rq s) = Inr r"
  from clock_out_success_latest [OF this] obtain e where
    e: "select_latest (req_user rq) (today_of c rq) s = Some e"
       "select_latest (req_user rq) (today_of c rq) (fst (clock_out c rq s)) =
               Some (e\<lparr>check_out := Some (now_of c rq), comment := or_null (req_comment rq),
                       timezone := coalesce (timezone e) (or_null (req_timezone rq))\<rparr>)"
    by blast
  then show "\<exists>e e'. select_latest (req_user rq) (today_of c rq) s = Some e \<and>
         select_latest (req_user rq) (today_of c rq) (fst (clock_out c rq s)) = Some e' \<and>
         e_id e' = e_id e \<and>
         timezone e' = (case timezone e of Some z \<Rightarrow> Some z
                        | None \<Rightarrow> or_null (req_timezone rq)) \<and>
         check_in e' = check_in e \<and> date e' = date e"
    by (simp add: coalesce_def)
next
  fix a t ci co du i
  assume "snd (toggle c rq s) = Inr (Toggle_out a t ci co du i)"
  from toggle_out_inv [OF this] obtain e where
    e: "select_latest (req_user rq) (today_of c rq) s = Some e"
       "fst (toggle c rq s) =
          update_toggle_out (now_of c rq) (or_null (req_timezone rq)) (e_id e) (req_user rq) s"
    by blast
  have "user_id e = req_user rq" using select_latest_user [OF e(1)] by simp
  with e have "select_latest (req_user rq) (today_of c rq) (fst (toggle c rq s)) =
      Some (e\<lparr>check_out := Some (now_of c rq),
              timezone := coalesce (timezone e) (or_null (req_timezone rq))\<rparr>)"
    by (simp add: select_latest_toggle_out)
  with e(1) show "\<exists>e e'. select_latest (req_user rq) (today_of c rq) s = Some e \<and>
         select_latest (req_user rq) (today_of c rq) (fst (toggle c rq s)) = Some e' \<and>
         e_id e' = e_id e \<and>
         timezone e' = (case timezone e of Some z \<Rightarrow> Some z
                        | None \<Rightarrow> or_null (req_timezone rq)) \<and>
         check_in e' = check_in e \<and> date e' = date e"
    by (simp add: coalesce_def)
next
  show "map (\<lambda>e. (e_id e, user_id e, date e, check_in e)) (entries (fst (clock_out c rq s))) =
   map (\<lambda>e. (e_id e, user_id e, date e, check_in e)) (entries s)"
    by (rule clock_out_columns)
qed

theorem timezone_first_write_wins_witness:
  "snd (clock_out clock_1730 request_2 (store_of [row_open])) = Inr (ClockOut_ok ''17:30'') \<and>
   map timezone (entries (fst (clock_out clock_1730 request_2 (store_of [row_open])))) =
     [Some ''Europe/Vienna''] \<and>
   snd (toggle clock_1730 request_2 (store_of [row_open_no_tz])) =
     Inr (Toggle_out ''check-out'' ''17:30'' ''09:00'' ''17:30'' (Some ''8h 30m'') 1) \<and>
   map timezone (entries (fst (toggle clock_1730 request_2 (store_of [row_open_no_tz])))) =
     [Some ''Asia/Tokyo''] \<and>
   (\<exists>e e'. select_latest (req_user request_2) (today_of clock_1730 request_2)
             (store_of [row_open]) = Some e \<and>
         select_latest (req_user request_2) (today_of clock_1730 request_2)
             (fst (clock_out clock_1730 request_2 (store_of [row_open]))) = Some e' \<and>
         timezone e' = (case timezone e of Some z \<Rightarrow> Some z
                        | None \<Rightarrow> or_null (req_timezone request_2))) \<and>
   (\<exists>e e'. select_latest (req_user request_2) (today_of clock_1730 request_2)
             (store_of [row_open_no_tz]) = Some e \<and>
         select_latest (req_user request_2) (today_of clock_1730 request_2)
             (fst (toggle clock_1730 request_2 (store_of [row_open_no_tz]))) = Some e' \<and>
         timezone e' = (case timezone e of Some z \<Rightarrow> Some z
                        | None \<Rightarrow> or_null (req_timezone request_2)))"
proof -
  have a: "snd (clock_out clock_1730 request_2 (store_of [row_open])) = Inr (ClockOut_ok ''17:30'')"
    by code_simp
  have b: "map timezone (entries (fst (clock_out clock_1730 request_2 (store_of [row_open])))) =
     [Some ''Europe/Vienna'']"
    by code_simp
  have c: "snd (toggle clock_1730 request_2 (store_of [row_open_no_tz])) =
     Inr (Toggle_out ''check-out'' ''17:30'' ''09:00'' ''17:30'' (Some ''8h 30m'') 1)"
    by code_simp
  have d: "map timezone (entries (fst (toggle clock_1730 request_2 (store_of [row_open_no_tz])))) =
     [Some ''Asia/Tokyo'']"
    by code_simp
  note t1 = timezone_first_write_wins [of clock_1730 request_2 "store_of [row_open]"]
  note t2 = timezone_first_write_wins [of clock_1730 request_2 "store_of [row_open_no_tz]"]
  from t1 a have 1: "\<exists>e e'. select_latest (req_user request_2) (today_of clock_1730 request_2)
             (store_of [row_open]) = Some e \<and>
         select_latest (req_user request_2) (today_of clock_1730 request_2)
             (fst (clock_out clock_1730 request_2 (store_of [row_open]))) = Some e' \<and>
         timezone e' = (case timezone e of Some z \<Rightarrow> Some z
                        | None \<Rightarrow> or_null (req_timezone request_2))"
    by blast
  from t2 c have 2: "\<exists>e e'. select_latest (req_user request_2) (today_of clock_1730 request_2)
             (store_of [row_open_no_tz]) = Some e \<and>
         select_latest (req_user request_2) (today_of clock_1730 request_2)
             (fst (toggle clock_1730 request_2 (store_of [row_open_no_tz]))) = Some e' \<and>
         timezone e' = (case timezone e of Some z \<Rightarrow> Some z
                        | None \<Rightarrow> or_null (req_timezone request_2))"
    by blast
  from a b c d 1 2 show ?thesis by blast
qed



subsection \<open>Tables built by the handlers alone\<close>

lemma inv_empty: "lifecycle_inv empty_store"
  by (simp add: lifecycle_inv_def empty_store_def)

lemma inv_insert:
  assumes inv: "lifecycle_inv s" and no: "\<not> state_OPEN u d s" and t: "t \<noteq> []"
  shows "lifecycle_inv (snd (insert_entry u d t tz s))"
proof -
  let ?n = "\<lparr>e_id = next_rowid s, user_id = u, date = d, check_in = Some t, check_out = None,
           comment = None, timezone = tz\<rparr>"
  let ?s' = "snd (insert_entry u d t tz s)"
  have rows: "entries ?s' = entries s @ [?n]"
    by (simp add: insert_entry_def Let_def)
  have 1: "\<forall>e\<in>set (entries ?s'). truthy (check_in e)"
    using inv t by (auto simp: rows lifecycle_inv_def truthy_def)
  have "next_rowid s \<notin> e_id ` set (entries s)"
    using next_rowid_fresh [of _ s] by fastforce
  then have 3: "distinct (map e_id (entries ?s'))"
    using inv by (simp add: rows lifecycle_inv_def)
  have 2: "\<forall>e\<in>set (entries ?s'). checkedIn e \<longrightarrow>
          select_latest (user_id e) (date e) ?s' = Some e"
  proof (intro ballI impI)
    fix e assume e: "e \<in> set (entries ?s')" and o: "checkedIn e"
    show "select_latest (user_id e) (date e) ?s' = Some e"
    proof (cases "e = ?n")
      case True
      then show ?thesis using select_latest_insert_same [of u d t tz s] by simp
    next
      case False
      with e rows have old: "e \<in> set (entries s)" by simp
      with inv o have l: "select_latest (user_id e) (date e) s = Some e"
        by (simp add: lifecycle_inv_def)
      have "(user_id e, date e) \<noteq> (u, d)"
      proof
        assume "(user_id e, date e) = (u, d)"
        with l o have "state_OPEN u d s" by (auto simp: state_OPEN_def)
        with no show False by simp
      qed
      then show ?thesis using l by (simp add: select_latest_insert_other)
    qed
  qed
  from 1 2 3 show ?thesis by (simp add: lifecycle_inv_def)
qed

lemma inv_map:
  assumes inv: "lifecycle_inv s"
      and f: "\<And>e. e_id (f e) = e_id e" "\<And>e. user_id (f e) = user_id e"
             "\<And>e. date (f e) = date e" "\<And>e. check_in (f e) = check_in e"
      and close: "\<And>e. checkedIn (f e) \<Longrightarrow> f e = e"
  shows "lifecycle_inv (s\<lparr>entries := map f (entries s)\<rparr>)"
proof -
  let ?s' = "s\<lparr>entries := map f (entries s)\<rparr>"
  have 1: "\<forall>e\<in>set (entries ?s'). truthy (check_in e)"
    using inv by (auto simp: lifecycle_inv_def f)
  have 3: "distinct (map e_id (entries ?s'))"
    using inv by (simp add: lifecycle_inv_def o_def f)
  have 2: "\<forall>e\<in>set (entries ?s'). checkedIn e \<longrightarrow>
          select_latest (user_id e) (date e) ?s' = Some e"
  proof (intro ballI impI)
    fix e' assume "e' \<in> set (entries ?s')" and o: "checkedIn e'"
    then obtain e where e: "e \<in> set (entries s)" "e' = f e" by auto
    with o close have same: "f e = e" by simp
    with e o inv have "select_latest (user_id e) (date e) s = Some e"
      by (simp add: lifecycle_inv_def)
    then have "select_latest (user_id e) (date e) ?s' = Some (f e)"
      by (simp add: select_latest_map f)
    with same e show "select_latest (user_id e') (date e') ?s' = Some e'" by simp
  qed
  from 1 2 3 show ?thesis by (simp add: lifecycle_inv_def)
qed

lemma inv_update_clock_out:
  "lifecycle_inv s \<Longrightarrow> t \<noteq> [] \<Longrightarrow> lifecycle_inv (update_clock_out t cm tz i u s)"
  unfolding update_clock_out_def
  by (rule inv_map) (auto simp: checkedIn_def truthy_def split: if_splits)

lemma inv_update_toggle_out:
  "lifecycle_inv s \<Longrightarrow> t \<noteq> [] \<Longrightarrow> lifecycle_inv (update_toggle_out t tz i u s)"
  unfolding update_toggle_out_def
  by (rule inv_map) (auto simp: checkedIn_def truthy_def split: if_splits)

lemma inv_clock_in: "lifecycle_inv s \<Longrightarrow> lifecycle_inv (fst (clock_in c rq s))"
  by (auto simp: clock_in_def Let_def split_beta state_OPEN_def checkedIn_def now_of_nonempty
           split: option.splits intro!: inv_insert)

lemma inv_clock_out: "lifecycle_inv s \<Longrightarrow> lifecycle_inv (fst (clock_out c rq s))"
  by (auto simp: clock_out_def Let_def now_of_nonempty split: option.splits
           intro!: inv_update_clock_out)

lemma inv_toggle: "lifecycle_inv s \<Longrightarrow> lifecycle_inv (fst (toggle c rq s))"
  by (auto simp: toggle_def Let_def split_beta state_OPEN_def checkedIn_def now_of_nonempty
           split: option.splits intro!: inv_insert inv_update_toggle_out)

lemma inv_serve: "lifecycle_inv s \<Longrightarrow> lifecycle_inv (fst (serve k s))"
  by (cases k) (simp_all add: inv_clock_in inv_clock_out inv_toggle)

lemma inv_run: "lifecycle_inv s \<Longrightarrow> lifecycle_inv (run ks s)"
  by (induction ks arbitrary: s) (simp_all add: inv_serve)

lemma inv_reachable: "lifecycle_inv (run ks empty_store)"
  by (rule inv_run) (rule inv_empty)

lemma open_entries_le1:
  assumes "lifecycle_inv s"
  shows "length (open_entries u d s) \<le> 1"
proof (cases "select_latest u d s")
  case None
  then have "open_entries u d s = []"
    by (auto simp: open_entries_def select_latest_None filter_empty_conv)
  then show ?thesis by simp
next
  case (Some m)
  have "distinct (entries s)"
    using assms by (auto simp: lifecycle_inv_def distinct_map)
  then have d: "distinct (open_entries u d s)"
    by (simp add: open_entries_def)
  have "set (open_entries u d s) \<subseteq> {m}"
    using assms Some by (auto simp: open_entries_def lifecycle_inv_def)
  then have "card (set (open_entries u d s)) \<le> 1"
    using card_mono [of "{m}" "set (open_entries u d s)"] by simp
  with d show ?thesis by (simp add: distinct_card)
qed



subsection \<open>Histories\<close>

lemma state_NONE_of_inv:
  assumes "lifecycle_inv s" and "\<not> state_OPEN u d s"
  shows "state_NONE u d s"
proof (cases "select_latest u d s")
  case None
  then show ?thesis by (simp add: state_NONE_def)
next
  case (Some e)
  then have "e \<in> set (entries s)" using select_latest_user by blast
  with assms(1) have "truthy (check_in e)" by (simp add: lifecycle_inv_def)
  with assms(2) Some show ?thesis
    by (simp add: state_NONE_def state_OPEN_def checkedIn_def closed_def checkedOut_def)
qed

lemma clock_in_grows:
  "length (entries (fst (clock_in c rq s))) \<noteq> length (entries s) \<Longrightarrow>
   \<not> state_OPEN (req_user rq) (today_of c rq) s"
  by (auto simp: clock_in_def Let_def state_OPEN_def checkedIn_def
           split: option.splits if_splits)

lemma clock_out_same_length:
  "length (entries (fst (clock_out c rq s))) = length (entries s)"
  using arg_cong [OF clock_out_columns [of c rq s], of length] by simp

lemma toggle_grows:
  "length (entries (fst (toggle c rq s))) \<noteq> length (entries s) \<Longrightarrow>
   \<not> state_OPEN (req_user rq) (today_of c rq) s"
  by (auto simp: toggle_def Let_def split_beta state_OPEN_def checkedIn_def
                 update_toggle_out_def split: option.splits if_splits)

lemma serve_grows:
  assumes "lifecycle_inv s"
      and "length (entries (fst (serve k s))) \<noteq> length (entries s)"
  shows "state_NONE (call_user k) (call_date k) s"
proof (cases k)
  case (ClockIn c rq)
  with assms(2) have "\<not> state_OPEN (req_user rq) (today_of c rq) s"
    using clock_in_grows by simp
  with assms(1) ClockIn show ?thesis by (simp add: state_NONE_of_inv)
next
  case (ClockOut c rq)
  with assms(2) show ?thesis by (simp add: clock_out_same_length)
next
  case (Toggle c rq)
  with assms(2) have "\<not> state_OPEN (req_user rq) (today_of c rq) s"
    using toggle_grows by simp
  with assms(1) Toggle show ?thesis by (simp add: state_NONE_of_inv)
qed

lemma toggle_reply_shape:
  "snd (toggle c rq s) = Inr r \<Longrightarrow>
   (\<exists>t i lc lcd. r = Toggle_in ''check-in'' t i lc lcd) \<or>
   (\<exists>t ci co du i. r = Toggle_out ''check-out'' t ci co du i)"
  by (auto simp: toggle_def Let_def split_beta split: option.splits if_splits)

lemma clock_in_reply_shape:
  "snd (clock_in c rq s) = Inr r \<Longrightarrow> \<exists>i t. r = ClockIn_ok i t"
  by (auto simp: clock_in_def Let_def split_beta split: option.splits if_splits)

lemma serve_checks_out:
  assumes "snd (serve k s) = Inr r" and "checks_out r"
  shows "\<exists>e e'. select_latest (call_user k) (call_date k) s = Some e \<and> checkedIn e \<and>
           select_latest (call_user k) (call_date k) (fst (serve k s)) = Some e' \<and>
           e_id e' = e_id e \<and> closed e'"
proof (cases k)
  case (ClockIn c rq)
  with assms show ?thesis using clock_in_reply_shape [of c rq s r] by auto
next
  case (ClockOut c rq)
  with assms(1) have "snd (clock_out c rq s) = Inr r" by simp
  from clock_out_success_latest [OF this] obtain e where
    e: "select_latest (req_user rq) (today_of c rq) s = Some e" "checkedIn e"
       "select_latest (req_user rq) (today_of c rq) (fst (clock_out c rq s)) =
          Some (e\<lparr>check_out := Some (now_of c rq), comment := or_null (req_comment rq),
                  timezone := coalesce (timezone e) (or_null (req_timezone rq))\<rparr>)"
    by blast
  have "closed (e\<lparr>check_out := Some (now_of c rq), comment := or_null (req_comment rq),
                  timezone := coalesce (timezone e) (or_null (req_timezone rq))\<rparr>)"
    using e(2) by (simp add: closed_def checkedIn_def checkedOut_def truthy_def now_of_nonempty)
  with e ClockOut show ?thesis by simp
next
  case (Toggle c rq)
  with assms(1) have r: "snd (toggle c rq s) = Inr r" by simp
  with assms(2) toggle_reply_shape [OF r] obtain t ci co du i where
    "r = Toggle_out ''check-out'' t ci co du i" by auto
  with r have "snd (toggle c rq s) = Inr (Toggle_out ''check-out'' t ci co du i)" by simp
  from toggle_out_inv [OF this] obtain e where
    e: "select_latest (req_user rq) (today_of c rq) s = Some e" "checkedIn e"
       "fst (toggle c rq s) =
          update_toggle_out (now_of c rq) (or_null (req_timezone rq)) (e_id e) (req_user rq) s"
    by blast
  have "user_id e = req_user rq" using select_latest_user [OF e(1)] by simp
  with e have l: "select_latest (req_user rq) (today_of c rq) (fst (toggle c rq s)) =
      Some (e\<lparr>check_out := Some (now_of c rq),
              timezone := coalesce (timezone e) (or_null (req_timezone rq))\<rparr>)"
    by (simp add: select_latest_toggle_out)
  have "closed (e\<lparr>check_out := Some (now_of c rq),
              timezone := coalesce (timezone e) (or_null (req_timezone rq))\<rparr>)"
    using e(2) by (simp add: closed_def checkedIn_def checkedOut_def truthy_def now_of_nonempty)
  with e l Toggle show ?thesis by simp
qed

lemma run_take_reachable: "lifecycle_inv (run (take n ks) empty_store)"
  by (rule inv_reachable)

text \<open>
  Claim C1. In every table that clock-in, clock-out and toggle requests, served one
  after the other, build from the empty table, each user and day has at most one open
  row (check-in set, check-out unset), after every prefix of the history. A request
  that adds a row does so only when the day is \<open>NONE\<close> (no row, or the latest row
  closed), and a reply that reports a check-out means the latest row of the day was
  open and is closed afterwards.
\<close>

theorem one_open_entry_per_day:
  "(\<forall>n. length (open_entries u d (run (take n ks) empty_store)) \<le> 1) \<and>
   (\<forall>k. length (entries (fst (serve k (run ks empty_store)))) \<noteq>
          length (entries (run ks empty_store)) \<longrightarrow>
        state_NONE (call_user k) (call_date k) (run ks empty_store)) \<and>
   (\<forall>k r. snd (serve k (run ks empty_store)) = Inr r \<and> checks_out r \<longrightarrow>
        (\<exists>e e'. select_latest (call_user k) (call_date k) (run ks empty_store) = Some e \<and>
           checkedIn e \<and>
           select_latest (call_user k) (call_date k) (fst (serve k (run ks empty_store)))
             = Some e' \<and>
           e_id e' = e_id e \<and> closed e'))"
proof (intro conjI allI impI)
  fix n
  show "length (open_entries u d (run (take n ks) empty_store)) \<le> 1"
    by (rule open_entries_le1) (rule inv_reachable)
next
  fix k
  assume "length (entries (fst (serve k (run ks empty_store)))) \<noteq>
          length (entries (run ks empty_store))"
  with inv_reachable [of ks] show "state_NONE (call_user k) (call_date k) (run ks empty_store)"
    by (rule serve_grows)
next
  fix k r
  assume "snd (serve k (run ks empty_store)) = Inr r \<and> checks_out r"
  then show "\<exists>e e'. select_latest (call_user k) (call_date k) (run ks empty_store) = Some e \<and>
           checkedIn e \<and>
           select_latest (call_user k) (call_date k) (fst (serve k (run ks empty_store)))
             = Some e' \<and>
           e_id e' = e_id e \<and> closed e'"
    using serve_checks_out by blast
qed

theorem one_open_entry_per_day_witness:
  "length (open_entries 1 ''2026-03-10''
      (run (take 1 [ClockIn clock_0900 request_1, ClockOut clock_1730 request_1]) empty_store))
     \<le> 1 \<and>
   open_entries 1 ''2026-03-10'' (run [ClockIn clock_0900 request_1] empty_store) = [row_open] \<and>
   state_NONE (call_user (ClockIn clock_0900 request_1)) (call_date (ClockIn clock_0900 request_1))
     (run [] empty_store) \<and>
   (\<exists>e e'. select_latest (call_user (ClockOut clock_1730 request_1))
              (call_date (ClockOut clock_1730 request_1))
              (run [ClockIn clock_0900 request_1] empty_store) = Some e \<and>
           checkedIn e \<and>
           select_latest (call_user (ClockOut clock_1730 request_1))
              (call_date (ClockOut clock_1730 request_1))
              (fst (serve (ClockOut clock_1730 request_1)
                     (run [ClockIn clock_0900 request_1] empty_store))) = Some e' \<and>
           e_id e' = e_id e \<and> closed e')"
proof -
  note t1 = one_open_entry_per_day
    [of 1 "''2026-03-10''" "[ClockIn clock_0900 request_1, ClockOut clock_1730 request_1]"]
  note t2 = one_open_entry_per_day [of 1 "''2026-03-10''" "[]"]
  note t3 = one_open_entry_per_day [of 1 "''2026-03-10''" "[ClockIn clock_0900 request_1]"]
  have grows: "length (entries (fst (serve (ClockIn clock_0900 request_1) (run [] empty_store))))
      \<noteq> length (entries (run [] empty_store))"
    by code_simp
  have out: "snd (serve (ClockOut clock_1730 request_1)
                    (run [ClockIn clock_0900 request_1] empty_store)) =
             Inr (ClockOut_ok ''17:30'') \<and> checks_out (ClockOut_ok ''17:30'')"
    by code_simp
  have rows: "open_entries 1 ''2026-03-10'' (run [ClockIn clock_0900 request_1] empty_store) =
      [row_open]"
    by code_simp
  from t1 have 1: "length (open_entries 1 ''2026-03-10''
      (run (take 1 [ClockIn clock_0900 request_1, ClockOut clock_1730 request_1]) empty_store))
     \<le> 1"
    by blast
  from t2 grows have 2: "state_NONE (call_user (ClockIn clock_0900 request_1))
     (call_date (ClockIn clock_0900 request_1)) (run [] empty_store)"
    by blast
  from t3 out have 3: "\<exists>e e'. select_latest (call_user (ClockOut clock_1730 request_1))
              (call_date (ClockOut clock_1730 request_1))
              (run [ClockIn clock_0900 request_1] empty_store) = Some e \<and>
           checkedIn e \<and>
           select_latest (call_user (ClockOut clock_1730 request_1))
              (call_date (ClockOut clock_1730 request_1))
              (fst (serve (ClockOut clock_1730 request_1)
                     (run [ClockIn clock_0900 request_1] empty_store))) = Some e' \<and>
           e_id e' = e_id e \<and> closed e'"
    by blast
  from 1 2 3 rows show ?thesis by blast
qed

text \<open>
  Claim C10. In a table built by clock-in, clock-out and toggle requests alone every
  row has a check-in, so toggle never answers \<open>Unknown state\<close>: its reply is the
  \<open>check-in\<close> or the \<open>check-out\<close> action.
\<close>

theorem toggle_never_unknown_state:
  "(\<forall>e\<in>set (entries (run ks empty_store)). truthy (check_in e)) \<and>
   snd (toggle c rq (run ks empty_store)) \<noteq> Inl Unknown_state \<and>
   (\<exists>r. snd (toggle c rq (run ks empty_store)) = Inr r \<and>
        (action r = ''check-in'' \<or> action r = ''check-out''))"
proof -
  let ?s = "run ks empty_store"
  have inv: "lifecycle_inv ?s" by (rule inv_reachable)
  then have all: "\<forall>e\<in>set (entries ?s). truthy (check_in e)"
    by (simp add: lifecycle_inv_def)
  have "\<exists>r. snd (toggle c rq ?s) = Inr r \<and> (action r = ''check-in'' \<or> action r = ''check-out'')"
  proof (cases "select_latest (req_user rq) (today_of c rq) ?s")
    case None
    then show ?thesis using toggle_check_in [of rq c ?s] by simp
  next
    case (Some e)
    then have "e \<in> set (entries ?s)" using select_latest_user by blast
    with all have "truthy (check_in e)" by blast
    then obtain cin where cin: "check_in e = Some cin" "cin \<noteq> []"
      by (auto simp: truthy_def split: option.splits)
    show ?thesis
    proof (cases "truthy (check_out e)")
      case True
      with Some show ?thesis using toggle_check_in [of rq c ?s] by simp
    next
      case False
      with Some cin show ?thesis using toggle_check_out [of rq c ?s e cin] by simp
    qed
  qed
  with all show ?thesis by auto
qed


theorem toggle_never_unknown_state_witness:
  "list_all (\<lambda>e. truthy (check_in e)) (entries (run [ClockIn clock_0900 request_1] empty_store)) \<and>
   snd (toggle clock_1730 request_1 (run [ClockIn clock_0900 request_1] empty_store))
     \<noteq> Inl Unknown_state \<and>
   snd (toggle clock_1730 request_1 (run [ClockIn clock_0900 request_1] empty_store)) =
     Inr (Toggle_out ''check-out'' ''17:30'' ''09:00'' ''17:30'' (Some ''8h 30m'') 1)"
proof -
  note t = toggle_never_unknown_state [of "[ClockIn clock_0900 request_1]" clock_1730 request_1]
  from t have 1: "list_all (\<lambda>e. truthy (check_in e))
      (entries (run [ClockIn clock_0900 request_1] empty_store))"
    by (simp add: list_all_iff)
  from t have 2: "snd (toggle clock_1730 request_1 (run [ClockIn clock_0900 request_1] empty_store))
     \<noteq> Inl Unknown_state"
    by blast
  have 3: "snd (toggle clock_1730 request_1 (run [ClockIn clock_0900 request_1] empty_store)) =
     Inr (Toggle_out ''check-out'' ''17:30'' ''09:00'' ''17:30'' (Some ''8h 30m'') 1)"
    by code_simp
  from 1 2 3 show ?thesis by blast
qed



subsection \<open>Toggle as a two-state switch\<close>

lemma first_by_date_id_None: "(first_by_date_id xs = None) = (xs = [])"
  by (cases xs) (auto split: option.splits)

lemma first_by_date_id_mem: "first_by_date_id xs = Some m \<Longrightarrow> m \<in> set xs"
  by (induction xs arbitrary: m) (auto split: option.splits if_splits)

lemma not_later_trans: "\<not> later x y \<Longrightarrow> \<not> later y z \<Longrightarrow> \<not> later x z"
  by (auto simp: later_def not_less dest: order_trans)

lemma later_asym: "later x y \<Longrightarrow> \<not> later y x"
  by (auto simp: later_def)

lemma later_irrefl: "\<not> later x x"
  by (simp add: later_def)

lemma first_by_date_id_max:
  "first_by_date_id xs = Some m \<Longrightarrow> x \<in> set xs \<Longrightarrow> \<not> later x m"
proof (induction xs arbitrary: m)
  case Nil
  then show ?case by simp
next
  case (Cons e es)
  show ?case
  proof (cases "first_by_date_id es")
    case None
    then have "es = []" by (simp add: first_by_date_id_None)
    with Cons.prems None show ?thesis by (simp add: later_irrefl)
  next
    case (Some m')
    show ?thesis
    proof (cases "later m' e")
      case True
      with Some Cons.prems(1) have m: "m = m'" by simp
      from Cons.prems(2) have "x = e \<or> x \<in> set es" by simp
      then show ?thesis
      proof
        assume "x = e"
        with True m show ?thesis by (simp add: later_asym)
      next
        assume "x \<in> set es"
        with Cons.IH [OF Some] m show ?thesis by simp
      qed
    next
      case False
      with Some Cons.prems(1) have m: "m = e" by simp
      from Cons.prems(2) have "x = e \<or> x \<in> set es" by simp
      then show ?thesis
      proof
        assume "x = e"
        with m show ?thesis by (simp add: later_irrefl)
      next
        assume "x \<in> set es"
        with Cons.IH [OF Some] have "\<not> later x m'" by simp
        with False m show ?thesis using not_later_trans by blast
      qed
    qed
  qed
qed

lemma select_last_comment_spec:
  "case select_last_comment u s of
     None \<Rightarrow> \<not> (\<exists>e\<in>set (entries s). user_id e = u \<and> has_comment e)
   | Some l \<Rightarrow> l \<in> set (entries s) \<and> user_id l = u \<and> has_comment l \<and>
       (\<forall>e\<in>set (entries s). user_id e = u \<and> has_comment e \<longrightarrow>
          date e < date l \<or> (date e = date l \<and> e_id e \<le> e_id l))"
proof (cases "select_last_comment u s")
  case None
  then show ?thesis
    by (auto simp: select_last_comment_def first_by_date_id_None filter_empty_conv)
next
  case (Some l)
  let ?xs = "filter (\<lambda>e. user_id e = u \<and> has_comment e) (entries s)"
  from Some have f: "first_by_date_id ?xs = Some l" by (simp add: select_last_comment_def)
  from first_by_date_id_mem [OF f] have mem: "l \<in> set (entries s) \<and> user_id l = u \<and> has_comment l"
    by simp
  have "\<forall>e\<in>set (entries s). user_id e = u \<and> has_comment e \<longrightarrow>
          date e < date l \<or> (date e = date l \<and> e_id e \<le> e_id l)"
  proof (intro ballI impI)
    fix e assume "e \<in> set (entries s)" "user_id e = u \<and> has_comment e"
    then have "e \<in> set ?xs" by simp
    from first_by_date_id_max [OF f this]
    show "date e < date l \<or> (date e = date l \<and> e_id e \<le> e_id l)"
      by (auto simp: later_def not_less)
  qed
  with Some mem show ?thesis by simp
qed

lemma state_NONE_toggle_cond:
  "state_NONE u d s \<Longrightarrow>
   (case select_latest u d s of None \<Rightarrow> True | Some e \<Rightarrow> truthy (check_out e))"
  by (auto simp: state_NONE_def closed_def checkedOut_def split: option.splits)

lemma entries_insert:
  "entries (snd (insert_entry u d t tz s)) = entries s @
     [\<lparr>e_id = next_rowid s, user_id = u, date = d, check_in = Some t, check_out = None,
       comment = None, timezone = tz\<rparr>]"
  by (simp add: insert_entry_def Let_def)

lemma toggle_from_NONE:
  assumes "state_NONE (req_user rq) (today_of c rq) s"
  shows "\<exists>s1. toggle c rq s =
       (s1, Inr (Toggle_in ''check-in'' (now_of c rq) (next_rowid s)
          (case select_last_comment (req_user rq) s of None \<Rightarrow> None | Some l \<Rightarrow> comment l)
          (case select_last_comment (req_user rq) s of None \<Rightarrow> None | Some l \<Rightarrow> Some (date l)))) \<and>
       entries s1 = entries s @
         [\<lparr>e_id = next_rowid s, user_id = req_user rq, date = today_of c rq,
           check_in = Some (now_of c rq), check_out = None, comment = None,
           timezone = or_null (req_timezone rq)\<rparr>] \<and>
       state_OPEN (req_user rq) (today_of c rq) s1"
proof -
  let ?s1 = "snd (insert_entry (req_user rq) (today_of c rq) (now_of c rq)
                    (or_null (req_timezone rq)) s)"
  have "state_OPEN (req_user rq) (today_of c rq) ?s1"
    by (simp add: state_OPEN_def select_latest_insert_same checkedIn_def truthy_def
                  now_of_nonempty)
  then show ?thesis
    using toggle_check_in [OF state_NONE_toggle_cond [OF assms]]
    by (simp add: entries_insert)
qed

lemma toggle_from_OPEN:
  assumes "state_OPEN (req_user rq) (today_of c rq) s"
  shows "\<exists>s1 ci du i. toggle c rq s =
       (s1, Inr (Toggle_out ''check-out'' (now_of c rq) ci (now_of c rq) du i)) \<and>
       length (entries s1) = length (entries s) \<and>
       state_NONE (req_user rq) (today_of c rq) s1"
proof -
  from assms obtain e where e: "select_latest (req_user rq) (today_of c rq) s = Some e"
      "checkedIn e"
    by (auto simp: state_OPEN_def split: option.splits)
  then obtain cin where cin: "check_in e = Some cin" "cin \<noteq> []" "\<not> truthy (check_out e)"
    by (auto simp: checkedIn_def truthy_def split: option.splits)
  let ?s1 = "update_toggle_out (now_of c rq) (or_null (req_timezone rq)) (e_id e) (req_user rq) s"
  have u: "user_id e = req_user rq" using select_latest_user [OF e(1)] by simp
  have "select_latest (req_user rq) (today_of c rq) ?s1 =
      Some (e\<lparr>check_out := Some (now_of c rq),
              timezone := coalesce (timezone e) (or_null (req_timezone rq))\<rparr>)"
    using e(1) u by (simp add: select_latest_toggle_out)
  then have "state_NONE (req_user rq) (today_of c rq) ?s1"
    using cin by (simp add: state_NONE_def closed_def checkedOut_def truthy_def now_of_nonempty)
  moreover have "length (entries ?s1) = length (entries s)"
    by (simp add: update_toggle_out_def)
  ultimately show ?thesis
    using toggle_check_out [OF e(1) cin] by simp
qed

lemma toggle_twice_rows:
  assumes "state_NONE (req_user rq) (today_of c rq) s"
      and "req_user rq' = req_user rq" and "today_of c' rq' = today_of c rq"
  shows "snd (toggle c' rq' (fst (toggle c rq s))) =
           Inr (Toggle_out ''check-out'' (now_of c' rq') (now_of c rq) (now_of c' rq')
                  (duration_text (now_of c rq) (now_of c' rq')) (next_rowid s)) \<and>
         entries (fst (toggle c' rq' (fst (toggle c rq s)))) = entries s @
           [\<lparr>e_id = next_rowid s, user_id = req_user rq, date = today_of c rq,
             check_in = Some (now_of c rq), check_out = Some (now_of c' rq'), comment = None,
             timezone = coalesce (or_null (req_timezone rq)) (or_null (req_timezone rq'))\<rparr>]"
proof -
  let ?n = "\<lparr>e_id = next_rowid s, user_id = req_user rq, date = today_of c rq,
             check_in = Some (now_of c rq), check_out = None, comment = None,
             timezone = or_null (req_timezone rq)\<rparr>"
  let ?s1 = "snd (insert_entry (req_user rq) (today_of c rq) (now_of c rq)
                    (or_null (req_timezone rq)) s)"
  have s1: "fst (toggle c rq s) = ?s1"
    using toggle_check_in [OF state_NONE_toggle_cond [OF assms(1)]] by simp
  have l: "select_latest (req_user rq') (today_of c' rq') ?s1 = Some ?n"
    using assms(2,3) by (simp add: select_latest_insert_same)
  have t2: "toggle c' rq' ?s1 =
     (update_toggle_out (now_of c' rq') (or_null (req_timezone rq')) (e_id ?n) (req_user rq') ?s1,
      Inr (Toggle_out ''check-out'' (now_of c' rq') (now_of c rq) (now_of c' rq')
             (duration_text (now_of c rq) (now_of c' rq')) (e_id ?n)))"
    by (rule toggle_check_out [OF l]) (simp_all add: now_of_nonempty truthy_def)
  have "map (\<lambda>e. if e_id e = next_rowid s \<and> user_id e = req_user rq'
                   then e\<lparr>check_out := Some (now_of c' rq'),
                          timezone := coalesce (timezone e) (or_null (req_timezone rq'))\<rparr>
                   else e) (entries s) = entries s"
  proof (rule map_idI)
    fix x assume "x \<in> set (entries s)"
    then have "e_id x \<noteq> next_rowid s" using next_rowid_fresh [of x s] by simp
    then show "(if e_id x = next_rowid s \<and> user_id x = req_user rq'
                   then x\<lparr>check_out := Some (now_of c' rq'),
                          timezone := coalesce (timezone x) (or_null (req_timezone rq'))\<rparr>
                   else x) = x"
      by simp
  qed
  then have "entries (update_toggle_out (now_of c' rq') (or_null (req_timezone rq')) (e_id ?n)
                        (req_user rq') ?s1) = entries s @
           [\<lparr>e_id = next_rowid s, user_id = req_user rq, date = today_of c rq,
             check_in = Some (now_of c rq), check_out = Some (now_of c' rq'), comment = None,
             timezone = coalesce (or_null (req_timezone rq)) (or_null (req_timezone rq'))\<rparr>]"
    using assms(2) by (simp add: update_toggle_out_def entries_insert)
  with s1 t2 show ?thesis by simp
qed


lemma open_entries_snoc:
  "entries s1 = entries s @ [n] \<Longrightarrow>
   open_entries u d s1 =
     open_entries u d s @ (if user_id n = u \<and> date n = d \<and> checkedIn n then [n] else [])"
  by (simp add: open_entries_def)

lemma toggle_flips:
  "(state_NONE (req_user rq) (today_of c rq) s \<longrightarrow>
      (\<exists>s1. toggle c rq s =
         (s1, Inr (Toggle_in ''check-in'' (now_of c rq) (next_rowid s)
            (case select_last_comment (req_user rq) s of None \<Rightarrow> None | Some l \<Rightarrow> comment l)
            (case select_last_comment (req_user rq) s of None \<Rightarrow> None
             | Some l \<Rightarrow> Some (date l)))) \<and>
         entries s1 = entries s @
           [\<lparr>e_id = next_rowid s, user_id = req_user rq, date = today_of c rq,
             check_in = Some (now_of c rq), check_out = None, comment = None,
             timezone = or_null (req_timezone rq)\<rparr>] \<and>
         state_OPEN (req_user rq) (today_of c rq) s1)) \<and>
   (case select_last_comment (req_user rq) s of
      None \<Rightarrow> \<not> (\<exists>e\<in>set (entries s). user_id e = req_user rq \<and> has_comment e)
    | Some l \<Rightarrow> l \<in> set (entries s) \<and> user_id l = req_user rq \<and> has_comment l \<and>
        (\<forall>e\<in>set (entries s). user_id e = req_user rq \<and> has_comment e \<longrightarrow>
           date e < date l \<or> (date e = date l \<and> e_id e \<le> e_id l))) \<and>
   (state_OPEN (req_user rq) (today_of c rq) s \<longrightarrow>
      (\<exists>s1 ci du i. toggle c rq s =
         (s1, Inr (Toggle_out ''check-out'' (now_of c rq) ci (now_of c rq) du i)) \<and>
         length (entries s1) = length (entries s) \<and>
         state_NONE (req_user rq) (today_of c rq) s1)) \<and>
   (state_NONE (req_user rq) (today_of c rq) s \<and>
    req_user rq' = req_user rq \<and> today_of c' rq' = today_of c rq \<longrightarrow>
      state_OPEN (req_user rq) (today_of c rq) (fst (toggle c rq s)) \<and>
      state_NONE (req_user rq) (today_of c rq) (fst (toggle c' rq' (fst (toggle c rq s)))) \<and>
      (\<exists>r. snd (toggle c' rq' (fst (toggle c rq s))) = Inr r \<and> action r = ''check-out'') \<and>
      open_entries (req_user rq) (today_of c rq) (fst (toggle c rq s)) =
        open_entries (req_user rq) (today_of c rq) s @
          [\<lparr>e_id = next_rowid s, user_id = req_user rq, date = today_of c rq,
            check_in = Some (now_of c rq), check_out = None, comment = None,
            timezone = or_null (req_timezone rq)\<rparr>] \<and>
      open_entries (req_user rq) (today_of c rq) (fst (toggle c' rq' (fst (toggle c rq s)))) =
        open_entries (req_user rq) (today_of c rq) s)"
proof (intro conjI impI)
  assume "state_NONE (req_user rq) (today_of c rq) s"
  then show "\<exists>s1. toggle c rq s =
         (s1, Inr (Toggle_in ''check-in'' (now_of c rq) (next_rowid s)
            (case select_last_comment (req_user rq) s of None \<Rightarrow> None | Some l \<Rightarrow> comment l)
            (case select_last_comment (req_user rq) s of None \<Rightarrow> None
             | Some l \<Rightarrow> Some (date l)))) \<and>
         entries s1 = entries s @
           [\<lparr>e_id = next_rowid s, user_id = req_user rq, date = today_of c rq,
             check_in = Some (now_of c rq), check_out = None, comment = None,
             timezone = or_null (req_timezone rq)\<rparr>] \<and>
         state_OPEN (req_user rq) (today_of c rq) s1"
    by (rule toggle_from_NONE)
next
  show "case select_last_comment (req_user rq) s of
      None \<Rightarrow> \<not> (\<exists>e\<in>set (entries s). user_id e = req_user rq \<and> has_comment e)
    | Some l \<Rightarrow> l \<in> set (entries s) \<and> user_id l = req_user rq \<and> has_comment l \<and>
        (\<forall>e\<in>set (entries s). user_id e = req_user rq \<and> has_comment e \<longrightarrow>
           date e < date l \<or> (date e = date l \<and> e_id e \<le> e_id l))"
    by (rule select_last_comment_spec)
next
  assume "state_OPEN (req_user rq) (today_of c rq) s"
  then show "\<exists>s1 ci du i. toggle c rq s =
         (s1, Inr (Toggle_out ''check-out'' (now_of c rq) ci (now_of c rq) du i)) \<and>
         length (entries s1) = length (entries s) \<and>
         state_NONE (req_user rq) (today_of c rq) s1"
    by (rule toggle_from_OPEN)
next
  assume a: "state_NONE (req_user rq) (today_of c rq) s \<and>
    req_user rq' = req_user rq \<and> today_of c' rq' = today_of c rq"
  then have none: "state_NONE (req_user rq) (today_of c rq) s"
    and same: "req_user rq' = req_user rq" "today_of c' rq' = today_of c rq"
    by simp_all
  let ?n = "\<lparr>e_id = next_rowid s, user_id = req_user rq, date = today_of c rq,
            check_in = Some (now_of c rq), check_out = None, comment = None,
            timezone = or_null (req_timezone rq)\<rparr>"
  from toggle_from_NONE [OF none] have
    rows1: "entries (fst (toggle c rq s)) = entries s @ [?n]"
    and open1: "state_OPEN (req_user rq) (today_of c rq) (fst (toggle c rq s))"
    by auto
  from open1 show "state_OPEN (req_user rq) (today_of c rq) (fst (toggle c rq s))" .
  from open1 same have "state_OPEN (req_user rq') (today_of c' rq') (fst (toggle c rq s))"
    by simp
  from toggle_from_OPEN [OF this] same
  show "state_NONE (req_user rq) (today_of c rq) (fst (toggle c' rq' (fst (toggle c rq s))))"
    by auto
  from toggle_twice_rows [OF none same]
  show "\<exists>r. snd (toggle c' rq' (fst (toggle c rq s))) = Inr r \<and> action r = ''check-out''"
    by simp
  have "checkedIn ?n" by (simp add: checkedIn_def truthy_def now_of_nonempty)
  with open_entries_snoc [OF rows1, of "req_user rq" "today_of c rq"]
  show "open_entries (req_user rq) (today_of c rq) (fst (toggle c rq s)) =
        open_entries (req_user rq) (today_of c rq) s @ [?n]"
    by simp
  from toggle_twice_rows [OF none same]
  have "entries (fst (toggle c' rq' (fst (toggle c rq s)))) = entries s @
           [\<lparr>e_id = next_rowid s, user_id = req_user rq, date = today_of c rq,
             check_in = Some (now_of c rq), check_out = Some (now_of c' rq'), comment = None,
             timezone = coalesce (or_null (req_timezone rq)) (or_null (req_timezone rq'))\<rparr>]"
    by simp
  from open_entries_snoc [OF this, of "req_user rq" "today_of c rq"]
  show "open_entries (req_user rq) (today_of c rq) (fst (toggle c' rq' (fst (toggle c rq s)))) =
        open_entries (req_user rq) (today_of c rq) s"
    by (simp add: checkedIn_def truthy_def now_of_nonempty)
qed

lemma toggle_open_writes:
  assumes "state_OPEN (req_user rq) (today_of c rq) s"
  shows "\<exists>e cin. select_latest (req_user rq) (today_of c rq) s = Some e \<and>
           check_in e = Some cin \<and>
           snd (toggle c rq s) =
             Inr (Toggle_out ''check-out'' (now_of c rq) cin (now_of c rq)
                    (duration_text cin (now_of c rq)) (e_id e)) \<and>
           entries (fst (toggle c rq s)) =
             map (\<lambda>r. if e_id r = e_id e \<and> user_id r = req_user rq
                       then r\<lparr>check_out := Some (now_of c rq),
                              timezone := coalesce (timezone r) (or_null (req_timezone rq))\<rparr>
                       else r)
                 (entries s) \<and>
           select_latest (req_user rq) (today_of c rq) (fst (toggle c rq s)) =
             Some (e\<lparr>check_out := Some (now_of c rq),
                     timezone := coalesce (timezone e) (or_null (req_timezone rq))\<rparr>)"
proof -
  from assms obtain e where e: "select_latest (req_user rq) (today_of c rq) s = Some e"
      "checkedIn e"
    by (auto simp: state_OPEN_def split: option.splits)
  then obtain cin where cin: "check_in e = Some cin" "cin \<noteq> []" "\<not> truthy (check_out e)"
    by (auto simp: checkedIn_def truthy_def split: option.splits)
  let ?s1 = "update_toggle_out (now_of c rq) (or_null (req_timezone rq)) (e_id e) (req_user rq) s"
  have u: "user_id e = req_user rq" using select_latest_user [OF e(1)] by simp
  have l: "select_latest (req_user rq) (today_of c rq) ?s1 =
      Some (e\<lparr>check_out := Some (now_of c rq),
              timezone := coalesce (timezone e) (or_null (req_timezone rq))\<rparr>)"
    using e(1) u by (simp add: select_latest_toggle_out)
  have rows: "entries ?s1 =
             map (\<lambda>r. if e_id r = e_id e \<and> user_id r = req_user rq
                       then r\<lparr>check_out := Some (now_of c rq),
                              timezone := coalesce (timezone r) (or_null (req_timezone rq))\<rparr>
                       else r)
                 (entries s)"
    by (simp add: update_toggle_out_def)
  from toggle_check_out [OF e(1) cin] e(1) cin(1) l rows show ?thesis by simp
qed

lemma toggle_sent:
  "(\<forall>d t. req_date rq = Some d \<and> d \<noteq> [] \<and> req_time rq = Some t \<and> t \<noteq> [] \<longrightarrow>
      (state_NONE (req_user rq) d s \<longrightarrow>
         (\<exists>s1. toggle c rq s =
            (s1, Inr (Toggle_in ''check-in'' t (next_rowid s)
               (case select_last_comment (req_user rq) s of None \<Rightarrow> None | Some l \<Rightarrow> comment l)
               (case select_last_comment (req_user rq) s of None \<Rightarrow> None
                | Some l \<Rightarrow> Some (date l)))) \<and>
            entries s1 = entries s @
              [\<lparr>e_id = next_rowid s, user_id = req_user rq, date = d,
                check_in = Some t, check_out = None, comment = None,
                timezone = (case req_timezone rq of None \<Rightarrow> None
                            | Some z \<Rightarrow> if z = [] then None else Some z)\<rparr>] \<and>
            state_OPEN (req_user rq) d s1)) \<and>
      (state_OPEN (req_user rq) d s \<longrightarrow>
         (\<exists>e cin. select_latest (req_user rq) d s = Some e \<and> check_in e = Some cin \<and>
            snd (toggle c rq s) =
              Inr (Toggle_out ''check-out'' t cin t (duration_text cin t) (e_id e)) \<and>
            entries (fst (toggle c rq s)) =
              map (\<lambda>r. if e_id r = e_id e \<and> user_id r = req_user rq
                        then r\<lparr>check_out := Some t,
                               timezone := coalesce (timezone r) (or_null (req_timezone rq))\<rparr>
                        else r)
                  (entries s) \<and>
            select_latest (req_user rq) d (fst (toggle c rq s)) =
              Some (e\<lparr>check_out := Some t,
                      timezone := coalesce (timezone e) (or_null (req_timezone rq))\<rparr>) \<and>
            state_NONE (req_user rq) d (fst (toggle c rq s)))) \<and>
      (\<forall>t'. state_NONE (req_user rq) d s \<and> req_user rq' = req_user rq \<and>
            req_date rq' = Some d \<and> req_time rq' = Some t' \<and> t' \<noteq> [] \<longrightarrow>
         snd (toggle c' rq' (fst (toggle c rq s))) =
           Inr (Toggle_out ''check-out'' t' t t' (duration_text t t') (next_rowid s)) \<and>
         entries (fst (toggle c' rq' (fst (toggle c rq s)))) = entries s @
           [\<lparr>e_id = next_rowid s, user_id = req_user rq, date = d,
             check_in = Some t, check_out = Some t', comment = None,
             timezone = coalesce (or_null (req_timezone rq)) (or_null (req_timezone rq'))\<rparr>]))"
proof (intro allI impI)
  fix d t
  assume a: "req_date rq = Some d \<and> d \<noteq> [] \<and> req_time rq = Some t \<and> t \<noteq> []"
  then have d: "today_of c rq = d" and t: "now_of c rq = t"
    by (simp_all add: today_of_sent now_of_sent)
  have n: "state_NONE (req_user rq) d s \<longrightarrow>
         (\<exists>s1. toggle c rq s =
            (s1, Inr (Toggle_in ''check-in'' t (next_rowid s)
               (case select_last_comment (req_user rq) s of None \<Rightarrow> None | Some l \<Rightarrow> comment l)
               (case select_last_comment (req_user rq) s of None \<Rightarrow> None
                | Some l \<Rightarrow> Some (date l)))) \<and>
            entries s1 = entries s @
              [\<lparr>e_id = next_rowid s, user_id = req_user rq, date = d,
                check_in = Some t, check_out = None, comment = None,
                timezone = (case req_timezone rq of None \<Rightarrow> None
                            | Some z \<Rightarrow> if z = [] then None else Some z)\<rparr>] \<and>
            state_OPEN (req_user rq) d s1)"
    using toggle_from_NONE [of rq c s] unfolding d t or_null_cases by blast
  have o: "state_OPEN (req_user rq) d s \<longrightarrow>
         (\<exists>e cin. select_latest (req_user rq) d s = Some e \<and> check_in e = Some cin \<and>
            snd (toggle c rq s) =
              Inr (Toggle_out ''check-out'' t cin t (duration_text cin t) (e_id e)) \<and>
            entries (fst (toggle c rq s)) =
              map (\<lambda>r. if e_id r = e_id e \<and> user_id r = req_user rq
                        then r\<lparr>check_out := Some t,
                               timezone := coalesce (timezone r) (or_null (req_timezone rq))\<rparr>
                        else r)
                  (entries s) \<and>
            select_latest (req_user rq) d (fst (toggle c rq s)) =
              Some (e\<lparr>check_out := Some t,
                      timezone := coalesce (timezone e) (or_null (req_timezone rq))\<rparr>) \<and>
            state_NONE (req_user rq) d (fst (toggle c rq s)))"
  proof
    assume op: "state_OPEN (req_user rq) d s"
    then have op': "state_OPEN (req_user rq) (today_of c rq) s" by (simp add: d)
    from toggle_from_OPEN [OF op'] have "state_NONE (req_user rq) d (fst (toggle c rq s))"
      by (auto simp: d)
    with toggle_open_writes [OF op'] show "\<exists>e cin. select_latest (req_user rq) d s = Some e \<and> check_in e = Some cin \<and>
            snd (toggle c rq s) =
              Inr (Toggle_out ''check-out'' t cin t (duration_text cin t) (e_id e)) \<and>
            entries (fst (toggle c rq s)) =
              map (\<lambda>r. if e_id r = e_id e \<and> user_id r = req_user rq
                        then r\<lparr>check_out := Some t,
                               timezone := coalesce (timezone r) (or_null (req_timezone rq))\<rparr>
                        else r)
                  (entries s) \<and>
            select_latest (req_user rq) d (fst (toggle c rq s)) =
              Some (e\<lparr>check_out := Some t,
                      timezone := coalesce (timezone e) (or_null (req_timezone rq))\<rparr>) \<and>
            state_NONE (req_user rq) d (fst (toggle c rq s))"
      unfolding d t by blast
  qed
  have w: "\<forall>t'. state_NONE (req_user rq) d s \<and> req_user rq' = req_user rq \<and>
            req_date rq' = Some d \<and> req_time rq' = Some t' \<and> t' \<noteq> [] \<longrightarrow>
         snd (toggle c' rq' (fst (toggle c rq s))) =
           Inr (Toggle_out ''check-out'' t' t t' (duration_text t t') (next_rowid s)) \<and>
         entries (fst (toggle c' rq' (fst (toggle c rq s)))) = entries s @
           [\<lparr>e_id = next_rowid s, user_id = req_user rq, date = d,
             check_in = Some t, check_out = Some t', comment = None,
             timezone = coalesce (or_null (req_timezone rq)) (or_null (req_timezone rq'))\<rparr>]"
  proof (intro allI impI)
    fix t'
    assume b: "state_NONE (req_user rq) d s \<and> req_user rq' = req_user rq \<and>
            req_date rq' = Some d \<and> req_time rq' = Some t' \<and> t' \<noteq> []"
    with a have d': "today_of c' rq' = d" and t': "now_of c' rq' = t'"
      by (simp_all add: today_of_sent now_of_sent)
    from b have "state_NONE (req_user rq) (today_of c rq) s" "req_user rq' = req_user rq"
      "today_of c' rq' = today_of c rq"
      by (simp_all add: d d')
    from toggle_twice_rows [OF this]
    show "snd (toggle c' rq' (fst (toggle c rq s))) =
           Inr (Toggle_out ''check-out'' t' t t' (duration_text t t') (next_rowid s)) \<and>
         entries (fst (toggle c' rq' (fst (toggle c rq s)))) = entries s @
           [\<lparr>e_id = next_rowid s, user_id = req_user rq, date = d,
             check_in = Some t, check_out = Some t', comment = None,
             timezone = coalesce (or_null (req_timezone rq)) (or_null (req_timezone rq'))\<rparr>]"
      unfolding d t t' .
  qed
  from n o w show "(state_NONE (req_user rq) d s \<longrightarrow>
         (\<exists>s1. toggle c rq s =
            (s1, Inr (Toggle_in ''check-in'' t (next_rowid s)
               (case select_last_comment (req_user rq) s of None \<Rightarrow> None | Some l \<Rightarrow> comment l)
               (case select_last_comment (req_user rq) s of None \<Rightarrow> None
                | Some l \<Rightarrow> Some (date l)))) \<and>
            entries s1 = entries s @
              [\<lparr>e_id = next_rowid s, user_id = req_user rq, date = d,
                check_in = Some t, check_out = None, comment = None,
                timezone = (case req_timezone rq of None \<Rightarrow> None
                            | Some z \<Rightarrow> if z = [] then None else Some z)\<rparr>] \<and>
            state_OPEN (req_user rq) d s1)) \<and>
      (state_OPEN (req_user rq) d s \<longrightarrow>
         (\<exists>e cin. select_latest (req_user rq) d s = Some e \<and> check_in e = Some cin \<and>
            snd (toggle c rq s) =
              Inr (Toggle_out ''check-out'' t cin t (duration_text cin t) (e_id e)) \<and>
            entries (fst (toggle c rq s)) =
              map (\<lambda>r. if e_id r = e_id e \<and> user_id r = req_user rq
                        then r\<lparr>check_out := Some t,
                               timezone := coalesce (timezone r) (or_null (req_timezone rq))\<rparr>
                        else r)
                  (entries s) \<and>
            select_latest (req_user rq) d (fst (toggle c rq s)) =
              Some (e\<lparr>check_out := Some t,
                      timezone := coalesce (timezone e) (or_null (req_timezone rq))\<rparr>) \<and>
            state_NONE (req_user rq) d (fst (toggle c rq s)))) \<and>
      (\<forall>t'. state_NONE (req_user rq) d s \<and> req_user rq' = req_user rq \<and>
            req_date rq' = Some d \<and> req_time rq' = Some t' \<and> t' \<noteq> [] \<longrightarrow>
         snd (toggle c' rq' (fst (toggle c rq s))) =
           Inr (Toggle_out ''check-out'' t' t t' (duration_text t t') (next_rowid s)) \<and>
         entries (fst (toggle c' rq' (fst (toggle c rq s)))) = entries s @
           [\<lparr>e_id = next_rowid s, user_id = req_user rq, date = d,
             check_in = Some t, check_out = Some t', comment = None,
             timezone = coalesce (or_null (req_timezone rq)) (or_null (req_timezone rq'))\<rparr>])"
    by (intro conjI)
qed

text \<open>
  Claim C6. In state \<open>NONE\<close> toggle clocks in: it appends an open row and replies
  \<open>check-in\<close> with the comment and date of the row that the last-comment query
  selects in the table as it was before the call. That row is a row of the same user
  with a non-empty comment such that every other such row has an earlier date, or the
  same date and a smaller id; there is none exactly when the user has no row with a
  non-empty comment. In state \<open>OPEN\<close> toggle clocks out: it replies \<open>check-out\<close>
  with the check-in of the latest row of the day, writes the check-out time into that
  row (and the timezone when the row had none), changes no other row, adds no row and
  leaves the day in state \<open>NONE\<close>. Two toggles in a row for the same user and day,
  starting in \<open>NONE\<close>, lead to \<open>OPEN\<close> and back to \<open>NONE\<close>: the first adds
  exactly one open row to the day's open rows, the second removes it, and the table
  ends with one more row, closed, holding the time of the first toggle as check-in and
  the time of the second as check-out. The day and the times are those of the requests:
  for a request that sends the date \<open>d\<close> and the time \<open>t\<close>, the day read and
  flipped is \<open>d\<close> and the time written is \<open>t\<close>; only a date or time that the
  request leaves out (or sends empty) is read from the server's clock.
\<close>

theorem toggle_flips_state:
  "(\<forall>d t. req_date rq = Some d \<and> d \<noteq> [] \<and> req_time rq = Some t \<and> t \<noteq> [] \<longrightarrow>
      (state_NONE (req_user rq) d s \<longrightarrow>
         (\<exists>s1. toggle c rq s =
            (s1, Inr (Toggle_in ''check-in'' t (next_rowid s)
               (case select_last_comment (req_user rq) s of None \<Rightarrow> None | Some l \<Rightarrow> comment l)
               (case select_last_comment (req_user rq) s of None \<Rightarrow> None
                | Some l \<Rightarrow> Some (date l)))) \<and>
            entries s1 = entries s @
              [\<lparr>e_id = next_rowid s, user_id = req_user rq, date = d,
                check_in = Some t, check_out = None, comment = None,
                timezone = (case req_timezone rq of None \<Rightarrow> None
                            | Some z \<Rightarrow> if z = [] then None else Some z)\<rparr>] \<and>
            state_OPEN (req_user rq) d s1)) \<and>
      (state_OPEN (req_user rq) d s \<longrightarrow>
         (\<exists>e cin. select_latest (req_user rq) d s = Some e \<and> check_in e = Some cin \<and>
            snd (toggle c rq s) =
              Inr (Toggle_out ''check-out'' t cin t (duration_text cin t) (e_id e)) \<and>
            entries (fst (toggle c rq s)) =
              map (\<lambda>r. if e_id r = e_id e \<and> user_id r = req_user rq
                        then r\<lparr>check_out := Some t,
                               timezone := coalesce (timezone r) (or_null (req_timezone rq))\<rparr>
                        else r)
                  (entries s) \<and>
            select_latest (req_user rq) d (fst (toggle c rq s)) =
              Some (e\<lparr>check_out := Some t,
                      timezone := coalesce (timezone e) (or_null (req_timezone rq))\<rparr>) \<and>
            state_NONE (req_user rq) d (fst (toggle c rq s)))) \<and>
      (\<forall>t'. state_NONE (req_user rq) d s \<and> req_user rq' = req_user rq \<and>
            req_date rq' = Some d \<and> req_time rq' = Some t' \<and> t' \<noteq> [] \<longrightarrow>
         snd (toggle c' rq' (fst (toggle c rq s))) =
           Inr (Toggle_out ''check-out'' t' t t' (duration_text t t') (next_rowid s)) \<and>
         entries (fst (toggle c' rq' (fst (toggle c rq s)))) = entries s @
           [\<lparr>e_id = next_rowid s, user_id = req_user rq, date = d,
             check_in = Some t, check_out = Some t', comment = None,
             timezone = coalesce (or_null (req_timezone rq)) (or_null (req_timezone rq'))\<rparr>]))
   \<and> (state_OPEN (req_user rq) (today_of c rq) s \<longrightarrow>
      (\<exists>e cin. select_latest (req_user rq) (today_of c rq) s = Some e \<and>
         check_in e = Some cin \<and>
         snd (toggle c rq s) =
           Inr (Toggle_out ''check-out'' (now_of c rq) cin (now_of c rq)
                  (duration_text cin (now_of c rq)) (e_id e)) \<and>
         entries (fst (toggle c rq s)) =
           map (\<lambda>r. if e_id r = e_id e \<and> user_id r = req_user rq
                     then r\<lparr>check_out := Some (now_of c rq),
                            timezone := coalesce (timezone r) (or_null (req_timezone rq))\<rparr>
                     else r)
               (entries s) \<and>
         select_latest (req_user rq) (today_of c rq) (fst (toggle c rq s)) =
           Some (e\<lparr>check_out := Some (now_of c rq),
                   timezone := coalesce (timezone e) (or_null (req_timezone rq))\<rparr>)))
   \<and> (state_NONE (req_user rq) (today_of c rq) s \<and>
    req_user rq' = req_user rq \<and> today_of c' rq' = today_of c rq \<longrightarrow>
      snd (toggle c' rq' (fst (toggle c rq s))) =
        Inr (Toggle_out ''check-out'' (now_of c' rq') (now_of c rq) (now_of c' rq')
               (duration_text (now_of c rq) (now_of c' rq')) (next_rowid s)) \<and>
      entries (fst (toggle c' rq' (fst (toggle c rq s)))) = entries s @
        [\<lparr>e_id = next_rowid s, user_id = req_user rq, date = today_of c rq,
          check_in = Some (now_of c rq), check_out = Some (now_of c' rq'), comment = None,
          timezone = coalesce (or_null (req_timezone rq)) (or_null (req_timezone rq'))\<rparr>])
   \<and> (\<forall>d. req_date rq = Some d \<and> d \<noteq> [] \<longrightarrow> today_of c rq = d)
   \<and> (\<not> truthy (req_date rq) \<longrightarrow> today_of c rq = iso_date c)
   \<and> (\<forall>t. req_time rq = Some t \<and> t \<noteq> [] \<longrightarrow> now_of c rq = t)
   \<and> (\<not> truthy (req_time rq) \<longrightarrow> now_of c rq = time_hm c)
   \<and> ((state_NONE (req_user rq) (today_of c rq) s \<longrightarrow>
      (\<exists>s1. toggle c rq s =
         (s1, Inr (Toggle_in ''check-in'' (now_of c rq) (next_rowid s)
            (case select_last_comment (req_user rq) s of None \<Rightarrow> None | Some l \<Rightarrow> comment l)
            (case select_last_comment (req_user rq) s of None \<Rightarrow> None
             | Some l \<Rightarrow> Some (date l)))) \<and>
         entries s1 = entries s @
           [\<lparr>e_id = next_rowid s, user_id = req_user rq, date = today_of c rq,
             check_in = Some (now_of c rq), check_out = None, comment = None,
             timezone = or_null (req_timezone rq)\<rparr>] \<and>
         state_OPEN (req_user rq) (today_of c rq) s1)) \<and>
   (case select_last_comment (req_user rq) s of
      None \<Rightarrow> \<not> (\<exists>e\<in>set (entries s). user_id e = req_user rq \<and> has_comment e)
    | Some l \<Rightarrow> l \<in> set (entries s) \<and> user_id l = req_user rq \<and> has_comment l \<and>
        (\<forall>e\<in>set (entries s). user_id e = req_user rq \<and> has_comment e \<longrightarrow>
           date e < date l \<or> (date e = date l \<and> e_id e \<le> e_id l))) \<and>
   (state_OPEN (req_user rq) (today_of c rq) s \<longrightarrow>
      (\<exists>s1 ci du i. toggle c rq s =
         (s1, Inr (Toggle_out ''check-out'' (now_of c rq) ci (now_of c rq) du i)) \<and>
         length (entries s1) = length (entries s) \<and>
         state_NONE (req_user rq) (today_of c rq) s1)) \<and>
   (state_NONE (req_user rq) (today_of c rq) s \<and>
    req_user rq' = req_user rq \<and> today_of c' rq' = today_of c rq \<longrightarrow>
      state_OPEN (req_user rq) (today_of c rq) (fst (toggle c rq s)) \<and>
      state_NONE (req_user rq) (today_of c rq) (fst (toggle c' rq' (fst (toggle c rq s)))) \<and>
      (\<exists>r. snd (toggle c' rq' (fst (toggle c rq s))) = Inr r \<and> action r = ''check-out'') \<and>
      open_entries (req_user rq) (today_of c rq) (fst (toggle c rq s)) =
        open_entries (req_user rq) (today_of c rq) s @
          [\<lparr>e_id = next_rowid s, user_id = req_user rq, date = today_of c rq,
            check_in = Some (now_of c rq), check_out = None, comment = None,
            timezone = or_null (req_timezone rq)\<rparr>] \<and>
      open_entries (req_user rq) (today_of c rq) (fst (toggle c' rq' (fst (toggle c rq s)))) =
        open_entries (req_user rq) (today_of c rq) s))"
proof -
  have A: "(\<forall>d t. req_date rq = Some d \<and> d \<noteq> [] \<and> req_time rq = Some t \<and> t \<noteq> [] \<longrightarrow>
      (state_NONE (req_user rq) d s \<longrightarrow>
         (\<exists>s1. toggle c rq s =
            (s1, Inr (Toggle_in ''check-in'' t (next_rowid s)
               (case select_last_comment (req_user rq) s of None \<Rightarrow> None | Some l \<Rightarrow> comment l)
               (case select_last_comment (req_user rq) s of None \<Rightarrow> None
                | Some l \<Rightarrow> Some (date l)))) \<and>
            entries s1 = entries s @
              [\<lparr>e_id = next_rowid s, user_id = req_user rq, date = d,
                check_in = Some t, check_out = None, comment = None,
                timezone = (case req_timezone rq of None \<Rightarrow> None
                            | Some z \<Rightarrow> if z = [] then None else Some z)\<rparr>] \<and>
            state_OPEN (req_user rq) d s1)) \<and>
      (state_OPEN (req_user rq) d s \<longrightarrow>
         (\<exists>e cin. select_latest (req_user rq) d s = Some e \<and> check_in e = Some cin \<and>
            snd (toggle c rq s) =
              Inr (Toggle_out ''check-out'' t cin t (duration_text cin t) (e_id e)) \<and>
            entries (fst (toggle c rq s)) =
              map (\<lambda>r. if e_id r = e_id e \<and> user_id r = req_user rq
                        then r\<lparr>check_out := Some t,
                               timezone := coalesce (timezone r) (or_null (req_timezone rq))\<rparr>
                        else r)
                  (entries s) \<and>
            select_latest (req_user rq) d (fst (toggle c rq s)) =
              Some (e\<lparr>check_out := Some t,
                      timezone := coalesce (timezone e) (or_null (req_timezone rq))\<rparr>) \<and>
            state_NONE (req_user rq) d (fst (toggle c rq s)))) \<and>
      (\<forall>t'. state_NONE (req_user rq) d s \<and> req_user rq' = req_user rq \<and>
            req_date rq' = Some d \<and> req_time rq' = Some t' \<and> t' \<noteq> [] \<longrightarrow>
         snd (toggle c' rq' (fst (toggle c rq s))) =
           Inr (Toggle_out ''check-out'' t' t t' (duration_text t t') (next_rowid s)) \<and>
         entries (fst (toggle c' rq' (fst (toggle c rq s)))) = entries s @
           [\<lparr>e_id = next_rowid s, user_id = req_user rq, date = d,
             check_in = Some t, check_out = Some t', comment = None,
             timezone = coalesce (or_null (req_timezone rq)) (or_null (req_timezone rq'))\<rparr>]))"
    by (rule toggle_sent)
  have B: "(state_OPEN (req_user rq) (today_of c rq) s \<longrightarrow>
      (\<exists>e cin. select_latest (req_user rq) (today_of c rq) s = Some e \<and>
         check_in e = Some cin \<and>
         snd (toggle c rq s) =
           Inr (Toggle_out ''check-out'' (now_of c rq) cin (now_of c rq)
                  (duration_text cin (now_of c rq)) (e_id e)) \<and>
         entries (fst (toggle c rq s)) =
           map (\<lambda>r. if e_id r = e_id e \<and> user_id r = req_user rq
                     then r\<lparr>check_out := Some (now_of c rq),
                            timezone := coalesce (timezone r) (or_null (req_timezone rq))\<rparr>
                     else r)
               (entries s) \<and>
         select_latest (req_user rq) (today_of c rq) (fst (toggle c rq s)) =
           Some (e\<lparr>check_out := Some (now_of c rq),
                   timezone := coalesce (timezone e) (or_null (req_timezone rq))\<rparr>)))"
    using toggle_open_writes [of rq c s] by blast
  have C: "(state_NONE (req_user rq) (today_of c rq) s \<and>
    req_user rq' = req_user rq \<and> today_of c' rq' = today_of c rq \<longrightarrow>
      snd (toggle c' rq' (fst (toggle c rq s))) =
        Inr (Toggle_out ''check-out'' (now_of c' rq') (now_of c rq) (now_of c' rq')
               (duration_text (now_of c rq) (now_of c' rq')) (next_rowid s)) \<and>
      entries (fst (toggle c' rq' (fst (toggle c rq s)))) = entries s @
        [\<lparr>e_id = next_rowid s, user_id = req_user rq, date = today_of c rq,
          check_in = Some (now_of c rq), check_out = Some (now_of c' rq'), comment = None,
          timezone = coalesce (or_null (req_timezone rq)) (or_null (req_timezone rq'))\<rparr>])"
    using toggle_twice_rows [of rq c s rq' c'] by blast
  have D1: "(\<forall>d. req_date rq = Some d \<and> d \<noteq> [] \<longrightarrow> today_of c rq = d)"
    by (simp add: today_of_sent)
  have D2: "(\<not> truthy (req_date rq) \<longrightarrow> today_of c rq = iso_date c)"
    by (simp add: today_of_default)
  have D3: "(\<forall>t. req_time rq = Some t \<and> t \<noteq> [] \<longrightarrow> now_of c rq = t)"
    by (simp add: now_of_sent)
  have D4: "(\<not> truthy (req_time rq) \<longrightarrow> now_of c rq = time_hm c)"
    by (simp add: now_of_default)
  have E: "(state_NONE (req_user rq) (today_of c rq) s \<longrightarrow>
      (\<exists>s1. toggle c rq s =
         (s1, Inr (Toggle_in ''check-in'' (now_of c rq) (next_rowid s)
            (case select_last_comment (req_user rq) s of None \<Rightarrow> None | Some l \<Rightarrow> comment l)
            (case select_last_comment (req_user rq) s of None \<Rightarrow> None
             | Some l \<Rightarrow> Some (date l)))) \<and>
         entries s1 = entries s @
           [\<lparr>e_id = next_rowid s, user_id = req_user rq, date = today_of c rq,
             check_in = Some (now_of c rq), check_out = None, comment = None,
             timezone = or_null (req_timezone rq)\<rparr>] \<and>
         state_OPEN (req_user rq) (today_of c rq) s1)) \<and>
   (case select_last_comment (req_user rq) s of
      None \<Rightarrow> \<not> (\<exists>e\<in>set (entries s). user_id e = req_user rq \<and> has_comment e)
    | Some l \<Rightarrow> l \<in> set (entries s) \<and> user_id l = req_user rq \<and> has_comment l \<and>
        (\<forall>e\<in>set (entries s). user_id e = req_user rq \<and> has_comment e \<longrightarrow>
           date e < date l \<or> (date e = date l \<and> e_id e \<le> e_id l))) \<and>
   (state_OPEN (req_user rq) (today_of c rq) s \<longrightarrow>
      (\<exists>s1 ci du i. toggle c rq s =
         (s1, Inr (Toggle_out ''check-out'' (now_of c rq) ci (now_of c rq) du i)) \<and>
         length (entries s1) = length (entries s) \<and>
         state_NONE (req_user rq) (today_of c rq) s1)) \<and>
   (state_NONE (req_user rq) (today_of c rq) s \<and>
    req_user rq' = req_user rq \<and> today_of c' rq' = today_of c rq \<longrightarrow>
      state_OPEN (req_user rq) (today_of c rq) (fst (toggle c rq s)) \<and>
      state_NONE (req_user rq) (today_of c rq) (fst (toggle c' rq' (fst (toggle c rq s)))) \<and>
      (\<exists>r. snd (toggle c' rq' (fst (toggle c rq s))) = Inr r \<and> action r = ''check-out'') \<and>
      open_entries (req_user rq) (today_of c rq) (fst (toggle c rq s)) =
        open_entries (req_user rq) (today_of c rq) s @
          [\<lparr>e_id = next_rowid s, user_id = req_user rq, date = today_of c rq,
            check_in = Some (now_of c rq), check_out = None, comment = None,
            timezone = or_null (req_timezone rq)\<rparr>] \<and>
      open_entries (req_user rq) (today_of c rq) (fst (toggle c' rq' (fst (toggle c rq s)))) =
        open_entries (req_user rq) (today_of c rq) s)"
    by (rule toggle_flips)
  show ?thesis
    by (rule conjI [OF A conjI [OF B conjI [OF C conjI [OF D1 conjI [OF D2
          conjI [OF D3 conjI [OF D4 E]]]]]]])
qed

theorem toggle_flips_state_witness:
  "iso_date clock_utc = ''2026-03-11'' \<and> time_hm clock_utc = ''00:15'' \<and>
   req_date request_in = Some ''2026-03-10'' \<and> req_time request_in = Some ''09:00'' \<and>
   req_date request_2 = Some ''2026-03-10'' \<and> req_time request_2 = Some ''17:30'' \<and>
   state_NONE 1 ''2026-03-10'' (store_of [row_closed]) \<and>
   snd (toggle clock_utc request_in (store_of [row_closed])) =
     Inr (Toggle_in ''check-in'' ''09:00'' 2 (Some ''inventory'') (Some ''2026-03-10'')) \<and>
   entries (fst (toggle clock_utc request_in (store_of [row_closed]))) =
     [row_closed, row_second\<lparr>check_out := None\<rparr>] \<and>
   state_OPEN 1 ''2026-03-10'' (fst (toggle clock_utc request_in (store_of [row_closed]))) \<and>
   \<not> state_OPEN 1 ''2026-03-11'' (fst (toggle clock_utc request_in (store_of [row_closed]))) \<and>
   snd (toggle clock_utc request_2 (fst (toggle clock_utc request_in (store_of [row_closed])))) =
     Inr (Toggle_out ''check-out'' ''17:30'' ''09:00'' ''17:30'' (Some ''8h 30m'') 2) \<and>
   entries (fst (toggle clock_utc request_2
                  (fst (toggle clock_utc request_in (store_of [row_closed]))))) =
     [row_closed, row_second] \<and>
   state_OPEN 1 ''2026-03-10'' (store_of [row_closed, row_open_no_tz\<lparr>e_id := 2\<rparr>]) \<and>
   snd (toggle clock_utc request_2 (store_of [row_closed, row_open_no_tz\<lparr>e_id := 2\<rparr>])) =
     Inr (Toggle_out ''check-out'' ''17:30'' ''09:00'' ''17:30'' (Some ''8h 30m'') 2) \<and>
   entries (fst (toggle clock_utc request_2 (store_of [row_closed, row_open_no_tz\<lparr>e_id := 2\<rparr>]))) =
     [row_closed, row_second\<lparr>timezone := Some ''Asia/Tokyo''\<rparr>] \<and>
   state_NONE 1 ''2026-03-10''
     (fst (toggle clock_utc request_2 (store_of [row_closed, row_open_no_tz\<lparr>e_id := 2\<rparr>]))) \<and>
   state_NONE (req_user request_1) (today_of clock_0900 request_1) (store_of [row_closed]) \<and>
   snd (toggle clock_0900 request_1 (store_of [row_closed])) =
     Inr (Toggle_in ''check-in'' ''09:00'' 2 (Some ''inventory'') (Some ''2026-03-10'')) \<and>
   state_OPEN (req_user request_1) (today_of clock_0900 request_1)
     (fst (toggle clock_0900 request_1 (store_of [row_closed]))) \<and>
   snd (toggle clock_1730 request_1 (fst (toggle clock_0900 request_1 (store_of [row_closed])))) =
     Inr (Toggle_out ''check-out'' ''17:30'' ''09:00'' ''17:30'' (Some ''8h 30m'') 2) \<and>
   state_NONE (req_user request_1) (today_of clock_0900 request_1)
     (fst (toggle clock_1730 request_1 (fst (toggle clock_0900 request_1 (store_of [row_closed]))))) \<and>
   open_entries (req_user request_1) (today_of clock_0900 request_1)
     (fst (toggle clock_1730 request_1 (fst (toggle clock_0900 request_1 (store_of [row_closed])))))
     = []"
proof -
  have clk: "iso_date clock_utc = ''2026-03-11'' \<and> time_hm clock_utc = ''00:15''"
    by code_simp
  have rq: "req_date request_in = Some ''2026-03-10'' \<and> req_time request_in = Some ''09:00'' \<and>
      req_date request_2 = Some ''2026-03-10'' \<and> req_time request_2 = Some ''17:30''"
    by code_simp
  have u: "req_user request_in = 1" "req_user request_2 = 1"
    by (simp_all add: request_in_def request_2_def)

  text \<open>A check-in and a check-out whose date and times differ from the clock's.\<close>
  have sent: "req_date request_in = Some ''2026-03-10'' \<and> ''2026-03-10'' \<noteq> [] \<and>
      req_time request_in = Some ''09:00'' \<and> ''09:00'' \<noteq> []"
    by code_simp
  note a = toggle_flips_state [where rq = request_in and c = clock_utc
      and s = "store_of [row_closed]" and rq' = request_2 and c' = clock_utc,
      THEN conjunct1, rule_format, OF sent]
  have none: "state_NONE (req_user request_in) ''2026-03-10'' (store_of [row_closed])"
    by code_simp
  have sent': "state_NONE (req_user request_in) ''2026-03-10'' (store_of [row_closed]) \<and>
      req_user request_2 = req_user request_in \<and>
      req_date request_2 = Some ''2026-03-10'' \<and> req_time request_2 = Some ''17:30'' \<and>
      ''17:30'' \<noteq> []"
    by code_simp
  have nxt: "next_rowid (store_of [row_closed]) = 2"
    by code_simp
  have du: "duration_text ''09:00'' ''17:30'' = Some ''8h 30m''"
    by code_simp
  have cm: "(case select_last_comment (req_user request_in) (store_of [row_closed]) of
               None \<Rightarrow> None | Some l \<Rightarrow> comment l) = Some ''inventory''"
    "(case select_last_comment (req_user request_in) (store_of [row_closed]) of
               None \<Rightarrow> None | Some l \<Rightarrow> Some (date l)) = Some ''2026-03-10''"
    by code_simp+
  have row1: "entries (store_of [row_closed]) @
      [\<lparr>e_id = 2, user_id = req_user request_in, date = ''2026-03-10'',
        check_in = Some ''09:00'', check_out = None, comment = None,
        timezone = (case req_timezone request_in of None \<Rightarrow> None
                    | Some z \<Rightarrow> if z = [] then None else Some z)\<rparr>] =
      [row_closed, row_second\<lparr>check_out := None\<rparr>]"
    by code_simp
  have row2: "entries (store_of [row_closed]) @
      [\<lparr>e_id = 2, user_id = req_user request_in, date = ''2026-03-10'',
        check_in = Some ''09:00'', check_out = Some ''17:30'', comment = None,
        timezone = coalesce (or_null (req_timezone request_in))
                     (or_null (req_timezone request_2))\<rparr>] =
      [row_closed, row_second]"
    by code_simp
  from a [THEN conjunct1, rule_format, OF none] obtain s1 where
    s1: "toggle clock_utc request_in (store_of [row_closed]) =
           (s1, Inr (Toggle_in ''check-in'' ''09:00'' 2 (Some ''inventory'')
                       (Some ''2026-03-10'')))"
      "entries s1 = [row_closed, row_second\<lparr>check_out := None\<rparr>]"
      "state_OPEN (req_user request_in) ''2026-03-10'' s1"
    unfolding nxt cm row1 by blast
  have in1: "snd (toggle clock_utc request_in (store_of [row_closed])) =
     Inr (Toggle_in ''check-in'' ''09:00'' 2 (Some ''inventory'') (Some ''2026-03-10''))"
    "entries (fst (toggle clock_utc request_in (store_of [row_closed]))) =
     [row_closed, row_second\<lparr>check_out := None\<rparr>]"
    "state_OPEN 1 ''2026-03-10'' (fst (toggle clock_utc request_in (store_of [row_closed])))"
    using s1 by (simp_all add: u)
  have other: "\<not> state_OPEN 1 ''2026-03-11''
      (fst (toggle clock_utc request_in (store_of [row_closed])))"
    by code_simp
  note b = a [THEN conjunct2, THEN conjunct2, rule_format, OF sent']
  have out1: "snd (toggle clock_utc request_2
                    (fst (toggle clock_utc request_in (store_of [row_closed])))) =
     Inr (Toggle_out ''check-out'' ''17:30'' ''09:00'' ''17:30'' (Some ''8h 30m'') 2)"
    "entries (fst (toggle clock_utc request_2
                  (fst (toggle clock_utc request_in (store_of [row_closed]))))) =
     [row_closed, row_second]"
    using b unfolding nxt du row2 by blast+

  text \<open>A check-out of an open row: the time of the request is written into it.\<close>
  have sent2: "req_date request_2 = Some ''2026-03-10'' \<and> ''2026-03-10'' \<noteq> [] \<and>
      req_time request_2 = Some ''17:30'' \<and> ''17:30'' \<noteq> []"
    by code_simp
  note c = toggle_flips_state [where rq = request_2 and c = clock_utc
      and s = "store_of [row_closed, row_open_no_tz\<lparr>e_id := 2\<rparr>]"
      and rq' = request_2 and c' = clock_utc,
      THEN conjunct1, rule_format, OF sent2, THEN conjunct2, THEN conjunct1]
  have op: "state_OPEN (req_user request_2) ''2026-03-10''
      (store_of [row_closed, row_open_no_tz\<lparr>e_id := 2\<rparr>])"
    by code_simp
  have lat: "select_latest (req_user request_2) ''2026-03-10''
      (store_of [row_closed, row_open_no_tz\<lparr>e_id := 2\<rparr>]) = Some (row_open_no_tz\<lparr>e_id := 2\<rparr>)"
    by code_simp
  have flds: "e_id (row_open_no_tz\<lparr>e_id := 2\<rparr>) = 2"
    "check_in (row_open_no_tz\<lparr>e_id := 2\<rparr>) = Some ''09:00''"
    by (simp_all add: row_open_no_tz_def)
  have rows3: "map (\<lambda>r. if e_id r = 2 \<and> user_id r = req_user request_2
                        then r\<lparr>check_out := Some ''17:30'',
                               timezone := coalesce (timezone r) (or_null (req_timezone request_2))\<rparr>
                        else r)
                  (entries (store_of [row_closed, row_open_no_tz\<lparr>e_id := 2\<rparr>])) =
      [row_closed, row_second\<lparr>timezone := Some ''Asia/Tokyo''\<rparr>]"
    by code_simp
  from c [rule_format, OF op] obtain e cin where
    e: "select_latest (req_user request_2) ''2026-03-10''
          (store_of [row_closed, row_open_no_tz\<lparr>e_id := 2\<rparr>]) = Some e"
      "check_in e = Some cin"
      "snd (toggle clock_utc request_2 (store_of [row_closed, row_open_no_tz\<lparr>e_id := 2\<rparr>])) =
         Inr (Toggle_out ''check-out'' ''17:30'' cin ''17:30'' (duration_text cin ''17:30'') (e_id e))"
      "entries (fst (toggle clock_utc request_2 (store_of [row_closed, row_open_no_tz\<lparr>e_id := 2\<rparr>]))) =
         map (\<lambda>r. if e_id r = e_id e \<and> user_id r = req_user request_2
                        then r\<lparr>check_out := Some ''17:30'',
                               timezone := coalesce (timezone r) (or_null (req_timezone request_2))\<rparr>
                        else r)
                  (entries (store_of [row_closed, row_open_no_tz\<lparr>e_id := 2\<rparr>]))"
      "state_NONE (req_user request_2) ''2026-03-10''
         (fst (toggle clock_utc request_2 (store_of [row_closed, row_open_no_tz\<lparr>e_id := 2\<rparr>])))"
    by blast
  from e(1) lat have ee: "e = row_open_no_tz\<lparr>e_id := 2\<rparr>" by simp
  from e(2) have cin: "cin = ''09:00''" unfolding ee flds by simp
  have out2: "state_OPEN 1 ''2026-03-10'' (store_of [row_closed, row_open_no_tz\<lparr>e_id := 2\<rparr>])"
    "snd (toggle clock_utc request_2 (store_of [row_closed, row_open_no_tz\<lparr>e_id := 2\<rparr>])) =
       Inr (Toggle_out ''check-out'' ''17:30'' ''09:00'' ''17:30'' (Some ''8h 30m'') 2)"
    "entries (fst (toggle clock_utc request_2 (store_of [row_closed, row_open_no_tz\<lparr>e_id := 2\<rparr>]))) =
       [row_closed, row_second\<lparr>timezone := Some ''Asia/Tokyo''\<rparr>]"
    "state_NONE 1 ''2026-03-10''
       (fst (toggle clock_utc request_2 (store_of [row_closed, row_open_no_tz\<lparr>e_id := 2\<rparr>])))"
  proof -
    from op show "state_OPEN 1 ''2026-03-10'' (store_of [row_closed, row_open_no_tz\<lparr>e_id := 2\<rparr>])"
      by (simp add: u)
    from e(3) show "snd (toggle clock_utc request_2
          (store_of [row_closed, row_open_no_tz\<lparr>e_id := 2\<rparr>])) =
       Inr (Toggle_out ''check-out'' ''17:30'' ''09:00'' ''17:30'' (Some ''8h 30m'') 2)"
      unfolding ee cin flds du .
    from e(4) show "entries (fst (toggle clock_utc request_2
          (store_of [row_closed, row_open_no_tz\<lparr>e_id := 2\<rparr>]))) =
       [row_closed, row_second\<lparr>timezone := Some ''Asia/Tokyo''\<rparr>]"
      unfolding ee flds rows3 .
    from e(5) show "state_NONE 1 ''2026-03-10''
       (fst (toggle clock_utc request_2 (store_of [row_closed, row_open_no_tz\<lparr>e_id := 2\<rparr>])))"
      by (simp add: u)
  qed

  text \<open>A request without a time: the clock's time is written.\<close>
  note t = toggle_flips_state [where rq = request_1 and c = clock_0900
      and s = "store_of [row_closed]" and rq' = request_1 and c' = clock_1730,
      THEN conjunct2, THEN conjunct2, THEN conjunct2, THEN conjunct2,
      THEN conjunct2, THEN conjunct2, THEN conjunct2]
  have none1: "state_NONE (req_user request_1) (today_of clock_0900 request_1)
      (store_of [row_closed])"
    by code_simp
  have same: "req_user request_1 = req_user request_1 \<and>
      today_of clock_1730 request_1 = today_of clock_0900 request_1"
    by code_simp
  have r1: "snd (toggle clock_0900 request_1 (store_of [row_closed])) =
     Inr (Toggle_in ''check-in'' ''09:00'' 2 (Some ''inventory'') (Some ''2026-03-10''))"
    by code_simp
  have r2: "snd (toggle clock_1730 request_1
                 (fst (toggle clock_0900 request_1 (store_of [row_closed])))) =
     Inr (Toggle_out ''check-out'' ''17:30'' ''09:00'' ''17:30'' (Some ''8h 30m'') 2)"
    by code_simp
  have o: "open_entries (req_user request_1) (today_of clock_0900 request_1)
      (store_of [row_closed]) = []"
    by code_simp
  from t none1 same have old:
    "state_OPEN (req_user request_1) (today_of clock_0900 request_1)
       (fst (toggle clock_0900 request_1 (store_of [row_closed])))"
    "state_NONE (req_user request_1) (today_of clock_0900 request_1)
       (fst (toggle clock_1730 request_1 (fst (toggle clock_0900 request_1 (store_of [row_closed])))))"
    "open_entries (req_user request_1) (today_of clock_0900 request_1)
       (fst (toggle clock_1730 request_1 (fst (toggle clock_0900 request_1 (store_of [row_closed])))))
     = open_entries (req_user request_1) (today_of clock_0900 request_1) (store_of [row_closed])"
    by blast+
  have n1: "state_NONE 1 ''2026-03-10'' (store_of [row_closed])"
    using none by (simp add: u)
  from clk rq n1 in1 other out1 out2 none1 r1 r2 old o show ?thesis
    by simp
qed

subsection \<open>The duration text of toggle\<close>

lemma is_digit_not_colon: "is_digit c \<Longrightarrow> c \<noteq> CHR '':''"
  by (auto simp: is_digit_def)

lemma Number_two_digits:
  "is_digit a \<Longrightarrow> is_digit b \<Longrightarrow>
   Number [a, b] = Some (int (10 * digit_value a + digit_value b))"
  by (simp add: Number_def digit_value_def)

lemma split_colon_hhmm:
  "is_digit a \<Longrightarrow> is_digit b \<Longrightarrow> is_digit d \<Longrightarrow> is_digit e \<Longrightarrow>
   split_colon [a, b, CHR '':'', d, e] = [[a, b], [d, e]]"
  by (simp add: is_digit_not_colon)

lemma minutes_of_hhmm: "is_hhmm s \<Longrightarrow> minutes_of s = Some (hhmm_minutes s)"
proof (induction s rule: is_hhmm.induct)
  case (1 a b c d e)
  then have dg: "is_digit a" "is_digit b" "is_digit d" "is_digit e" and c: "c = CHR '':''"
    by simp_all
  show ?case
    unfolding minutes_of_def c split_colon_hhmm [OF dg]
    by (simp add: Number_two_digits dg)
qed simp_all

lemma is_hhmm_nonempty: "is_hhmm s \<Longrightarrow> s \<noteq> []"
  by auto

lemma duration_text_hhmm:
  "is_hhmm cin \<Longrightarrow> is_hhmm cout \<Longrightarrow>
   duration_text cin cout =
     Some (show_int ((hhmm_minutes cout - hhmm_minutes cin) div 60) @ ''h '' @
           show_int ((hhmm_minutes cout - hhmm_minutes cin) smod 60) @ ''m'')"
  by (simp add: duration_text_def minutes_of_hhmm Let_def)

lemma smod_60_nonneg: "0 \<le> (t::int) \<Longrightarrow> t smod 60 = t mod 60"
  by (auto simp: signed_modulo_int_def sgn_if)

lemma smod_60_neg: "(t::int) < 0 \<Longrightarrow> t smod 60 = - ((- t) mod 60)"
  by (auto simp: signed_modulo_int_def sgn_if)


text \<open>
  The claim C5 as written takes \<open>m\<close> to be the minute difference \<open>mod 60\<close>.
  The handler computes \<open>totalMinutes % 60\<close>, which is negative for a check-out before
  the check-in: from 09:00 to 08:30 the reply says \<open>-1h -30m\<close>, where floor and
  \<open>mod\<close> give \<open>-1h 30m\<close>.
\<close>

theorem toggle_duration_counterexample:
  "select_latest (req_user request_early) (today_of clock_0900 request_early)
     (store_of [row_open]) = Some row_open \<and>
   checkedIn row_open \<and> check_in row_open = Some ''09:00'' \<and> is_hhmm ''09:00'' \<and>
   now_of clock_0900 request_early = ''08:30'' \<and> is_hhmm ''08:30'' \<and>
   snd (toggle clock_0900 request_early (store_of [row_open])) =
     Inr (Toggle_out ''check-out'' ''08:30'' ''09:00'' ''08:30'' (Some ''-1h -30m'') 1) \<and>
   claimed_duration ''09:00'' ''08:30'' = ''-1h 30m''"
  by code_simp

lemma claimed_duration_nonneg:
  "hhmm_minutes cin \<le> hhmm_minutes cout \<Longrightarrow>
   claimed_duration cin cout =
     show_int ((hhmm_minutes cout - hhmm_minutes cin) div 60) @ ''h '' @
     show_int ((hhmm_minutes cout - hhmm_minutes cin) smod 60) @ ''m''"
  by (simp add: claimed_duration_def Let_def smod_60_nonneg)

text \<open>
  Claim C5, amended. When toggle checks out a row whose check-in is an \<open>HH:MM\<close> time
  and the check-out time is an \<open>HH:MM\<close> time, the reply's duration is the text
  \<open>{h}h {m}m\<close> with \<open>h\<close> the floor of the minute difference over 60 and \<open>m\<close>
  the remainder of the difference that carries the sign of the difference. When the
  check-out is not before the check-in this is the text of the claim: \<open>m\<close> is the
  difference \<open>mod 60\<close>, both numbers are non-negative and \<open>60 * h + m\<close> is the
  minute difference. When it is before, \<open>m\<close> is minus the remainder of the absolute
  difference. Check-in 09:00 and check-out 17:30 give \<open>8h 30m\<close>.
\<close>

theorem toggle_duration:
  "(select_latest (req_user rq) (today_of c rq) s = Some e \<and> checkedIn e \<and>
    check_in e = Some cin \<and> is_hhmm cin \<and> is_hhmm (now_of c rq) \<longrightarrow>
      snd (toggle c rq s) =
        Inr (Toggle_out ''check-out'' (now_of c rq) cin (now_of c rq)
          (Some (show_int ((hhmm_minutes (now_of c rq) - hhmm_minutes cin) div 60) @ ''h '' @
                 show_int ((hhmm_minutes (now_of c rq) - hhmm_minutes cin) smod 60) @ ''m''))
          (e_id e)) \<and>
      (hhmm_minutes cin \<le> hhmm_minutes (now_of c rq) \<longrightarrow>
         snd (toggle c rq s) =
           Inr (Toggle_out ''check-out'' (now_of c rq) cin (now_of c rq)
             (Some (claimed_duration cin (now_of c rq))) (e_id e)))) \<and>
   (\<forall>t::int. 0 \<le> t \<longrightarrow> t smod 60 = t mod 60 \<and> 0 \<le> t div 60 \<and> 0 \<le> t mod 60 \<and>
        t mod 60 < 60 \<and> 60 * (t div 60) + t mod 60 = t) \<and>
   (\<forall>t::int. t < 0 \<longrightarrow> t smod 60 = - ((- t) mod 60)) \<and>
   duration_text ''09:00'' ''17:30'' = Some ''8h 30m''"
proof (intro conjI allI impI)
  assume a: "select_latest (req_user rq) (today_of c rq) s = Some e \<and> checkedIn e \<and>
    check_in e = Some cin \<and> is_hhmm cin \<and> is_hhmm (now_of c rq)"
  then have "cin \<noteq> []" "\<not> truthy (check_out e)"
    by (auto simp: checkedIn_def)
  with a have "toggle c rq s =
     (update_toggle_out (now_of c rq) (or_null (req_timezone rq)) (e_id e) (req_user rq) s,
      Inr (Toggle_out ''check-out'' (now_of c rq) cin (now_of c rq)
             (duration_text cin (now_of c rq)) (e_id e)))"
    using toggle_check_out by blast
  with a show r: "snd (toggle c rq s) =
        Inr (Toggle_out ''check-out'' (now_of c rq) cin (now_of c rq)
          (Some (show_int ((hhmm_minutes (now_of c rq) - hhmm_minutes cin) div 60) @ ''h '' @
                 show_int ((hhmm_minutes (now_of c rq) - hhmm_minutes cin) smod 60) @ ''m''))
          (e_id e))"
    by (simp add: duration_text_hhmm)
  assume "hhmm_minutes cin \<le> hhmm_minutes (now_of c rq)"
  with r show "snd (toggle c rq s) =
           Inr (Toggle_out ''check-out'' (now_of c rq) cin (now_of c rq)
             (Some (claimed_duration cin (now_of c rq))) (e_id e))"
    by (simp only: claimed_duration_nonneg)
next
  show "duration_text ''09:00'' ''17:30'' = Some ''8h 30m''" by code_simp
qed (simp_all add: smod_60_nonneg smod_60_neg)

theorem toggle_duration_witness:
  "select_latest (req_user request_2) (today_of clock_1730 request_2) (store_of [row_open])
     = Some row_open \<and>
   checkedIn row_open \<and> check_in row_open = Some ''09:00'' \<and> is_hhmm ''09:00'' \<and>
   is_hhmm (now_of clock_1730 request_2) \<and>
   hhmm_minutes ''09:00'' \<le> hhmm_minutes (now_of clock_1730 request_2) \<and>
   snd (toggle clock_1730 request_2 (store_of [row_open])) =
     Inr (Toggle_out ''check-out'' ''17:30'' ''09:00'' ''17:30'' (Some ''8h 30m'') 1) \<and>
   claimed_duration ''09:00'' ''17:30'' = ''8h 30m'' \<and>
   (510::int) smod 60 = 510 mod 60 \<and> 60 * ((510::int) div 60) + 510 mod 60 = 510 \<and>
   (- 30::int) smod 60 = - ((- (- 30)) mod 60)"
proof -
  note t = toggle_duration [where rq = request_2 and c = clock_1730
      and s = "store_of [row_open]" and e = row_open and cin = "''09:00''"]
  have h: "select_latest (req_user request_2) (today_of clock_1730 request_2) (store_of [row_open])
     = Some row_open \<and>
   checkedIn row_open \<and> check_in row_open = Some ''09:00'' \<and> is_hhmm ''09:00'' \<and>
   is_hhmm (now_of clock_1730 request_2)"
    by code_simp
  have le: "hhmm_minutes ''09:00'' \<le> hhmm_minutes (now_of clock_1730 request_2)"
    by code_simp
  have v: "now_of clock_1730 request_2 = ''17:30'' \<and> e_id row_open = 1 \<and>
     claimed_duration ''09:00'' ''17:30'' = ''8h 30m''"
    by code_simp
  from t h le have "snd (toggle clock_1730 request_2 (store_of [row_open])) =
        Inr (Toggle_out ''check-out'' (now_of clock_1730 request_2) ''09:00''
          (now_of clock_1730 request_2)
          (Some (claimed_duration ''09:00'' (now_of clock_1730 request_2)))
          (e_id row_open))"
    by blast
  with v have 1: "snd (toggle clock_1730 request_2 (store_of [row_open])) =
     Inr (Toggle_out ''check-out'' ''17:30'' ''09:00'' ''17:30'' (Some ''8h 30m'') 1)"
    by simp
  from t have 2: "(510::int) smod 60 = 510 mod 60 \<and> 60 * ((510::int) div 60) + 510 mod 60 = 510"
    by simp
  from t have 3: "(- 30::int) smod 60 = - ((- (- 30)) mod 60)"
    by (simp add: signed_modulo_int_def)
  from h le v 1 2 3 show ?thesis by blast
qed

subsection \<open>The calendar of a report\<close>

lemma first_of_month_le_index:
  "snd cur < 12 \<Longrightarrow> valid_date e \<Longrightarrow>
   first_of_month_le cur e = (fst cur * 12 + snd cur \<le> month_index e)"
  by (auto simp: first_of_month_le_def valid_date_def month_index_def)

lemma next_month_index:
  "snd cur < 12 \<Longrightarrow>
   snd (next_month cur) < 12 \<and>
   fst (next_month cur) * 12 + snd (next_month cur) = Suc (fst cur * 12 + snd cur)"
  by (auto simp: next_month_def)

lemma months_loop_spec:
  "snd cur < 12 \<Longrightarrow> valid_date e \<Longrightarrow>
   map (\<lambda>mi. (year mi, month mi)) (months_loop cur e) =
   map (\<lambda>i. (i div 12, i mod 12 + 1)) [fst cur * 12 + snd cur ..< Suc (month_index e)]"
proof (induction cur e rule: months_loop.induct)
  case (1 cur e)
  show ?case
  proof (cases "first_of_month_le cur e")
    case True
    with "1.prems" have le: "fst cur * 12 + snd cur \<le> month_index e"
      by (simp add: first_of_month_le_index)
    from next_month_index [OF "1.prems"(1)] have
      n: "snd (next_month cur) < 12"
         "fst (next_month cur) * 12 + snd (next_month cur) = Suc (fst cur * 12 + snd cur)"
      by simp_all
    have ih: "map (\<lambda>mi. (year mi, month mi)) (months_loop (next_month cur) e) =
      map (\<lambda>i. (i div 12, i mod 12 + 1)) [Suc (fst cur * 12 + snd cur) ..< Suc (month_index e)]"
      using "1.IH" [OF True n(1) "1.prems"(2)] n(2) by simp
    have hd: "((fst cur * 12 + snd cur) div 12, (fst cur * 12 + snd cur) mod 12 + 1) =
              (fst cur, snd cur + 1)"
      using "1.prems"(1) by simp
    have "[fst cur * 12 + snd cur ..< Suc (month_index e)] =
          (fst cur * 12 + snd cur) # [Suc (fst cur * 12 + snd cur) ..< Suc (month_index e)]"
      using le by (simp add: upt_conv_Cons)
    then show ?thesis
      using True ih hd by (simp add: months_loop.simps [of cur e])
  next
    case False
    with "1.prems" have "\<not> fst cur * 12 + snd cur \<le> month_index e"
      by (simp add: first_of_month_le_index)
    with False show ?thesis by (simp add: months_loop.simps [of cur e])
  qed
qed

lemma getMonthsInRange_spec:
  assumes "valid_date start" "valid_date e" "100 \<le> d_year start"
  shows "map (\<lambda>mi. (year mi, month mi)) (getMonthsInRange start e) =
         map (\<lambda>i. (i div 12, i mod 12 + 1)) [month_index start ..< Suc (month_index e)]"
proof -
  have "Date_year (d_year start) = d_year start" using assms(3) by (simp add: Date_year_def)
  moreover have "d_month start < 12" using assms(1) by (simp add: valid_date_def)
  ultimately show ?thesis
    using months_loop_spec [of "(d_year start, d_month start)" e] assms(2)
    by (simp add: getMonthsInRange_def month_index_def)
qed

lemma calendar_day_valid: "calendar_day y m d = Some x \<Longrightarrow> valid_date x"
  by (auto simp: calendar_day_def valid_date_def split: if_splits)

lemma parse_iso_date_valid: "parse_iso_date s = Some d \<Longrightarrow> valid_date d"
proof (induction s rule: parse_iso_date.induct)
  case (1 y1 y2 y3 y4 s1 m1 m2 s2 d1 d2)
  let ?ok = "list_all is_digit [y1, y2, y3, y4, m1, m2, d1, d2] \<and>
               s1 = CHR ''-'' \<and> s2 = CHR ''-''"
  let ?r = "calendar_day (digits_value 0 [y1, y2, y3, y4]) (digits_value 0 [m1, m2])
              (digits_value 0 [d1, d2])"
  have eq: "parse_iso_date [y1, y2, y3, y4, s1, m1, m2, s2, d1, d2] = (if ?ok then ?r else None)"
    by (rule parse_iso_date.simps)
  show ?case
  proof (cases ?ok)
    case True
    from True have "(if ?ok then ?r else None) = ?r" by (rule if_P)
    with eq have "parse_iso_date [y1, y2, y3, y4, s1, m1, m2, s2, d1, d2] = ?r"
      by (rule trans)
    with "1" have "?r = Some d" by metis
    then show ?thesis by (rule calendar_day_valid)
  next
    case False
    from False have "(if ?ok then ?r else None) = None" by (rule if_not_P)
    with eq have "parse_iso_date [y1, y2, y3, y4, s1, m1, m2, s2, d1, d2] = None"
      by (rule trans)
    with "1" have "None = Some d" by metis
    then show ?thesis by (rule option.distinct(1) [THEN notE])
  qed
qed simp_all

lemma days_in_month_bounds: "28 \<le> days_in_month y m \<and> days_in_month y m \<le> 31"
  by (simp add: days_in_month_def)

lemma day_cells_date: "r_date (fst (day_cells mi em d)) = date_string (year mi) (month mi) d"
  by (simp add: day_cells_def Let_def split: option.splits)

lemma day_cells_no_entry:
  "em (date_string (year mi) (month mi) d) = None \<Longrightarrow> 100 \<le> year mi \<Longrightarrow>
   r_check_in (fst (day_cells mi em d)) =
     (if is_weekend (year mi) (month mi) d then ''---'' else []) \<and>
   r_check_out (fst (day_cells mi em d)) =
     (if is_weekend (year mi) (month mi) d then ''---'' else []) \<and>
   r_total (fst (day_cells mi em d)) = Some [] \<and> r_comment (fst (day_cells mi em d)) = []"
  by (simp add: day_cells_def Let_def is_weekend_def Date_year_def)

lemma sheet_rows_eq:
  "100 \<le> year mi \<Longrightarrow>
   sheet_rows (createMonthSheet mi em) =
     map (\<lambda>d. fst (day_cells mi em d)) [1..<Suc (days_in_month (year mi) (month mi))]"
  by (simp add: createMonthSheet_def Let_def Date_year_def)

lemma report_sheets_nonempty:
  assumes "valid_date start" "valid_date e" "100 \<le> d_year start"
  shows "report_sheets es start e =
     (if month_index start \<le> month_index e
      then map (\<lambda>mi. Month (createMonthSheet mi (entries_map es))) (getMonthsInRange start e)
      else [No_data])"
proof -
  have "(getMonthsInRange start e = []) = (\<not> month_index start \<le> month_index e)"
    using arg_cong [OF getMonthsInRange_spec [OF assms], of length] by auto
  then show ?thesis by (auto simp: report_sheets_def Let_def)
qed


lemma sheet_summary_month:
  "sheet_summary (Month (createMonthSheet mi em)) =
     (monthName mi @ '' '' @ show_nat (year mi), days_in_month (Date_year (year mi)) (month mi))"
  by (simp add: createMonthSheet_def Let_def)

text \<open>
  Claim C7. For a report from \<open>startDate\<close> to \<open>endDate\<close> (two days of the
  calendar, the year of the first at least 100, the first not in a later month than the
  second), the workbook has one sheet per month from the month of \<open>startDate\<close> to the
  month of \<open>endDate\<close>, in order, whatever entries the table holds. Each month sheet
  has one row per day of its month, dated 1 to the length of the month, so 28 to 31
  rows. A day for which the report holds no entry shows \<open>---\<close> as check-in and
  check-out on a Saturday or Sunday and the empty text on any other day.
\<close>

theorem report_covers_calendar:
  "(parse_iso_date startDate = Some start \<and> parse_iso_date endDate = Some e \<and>
    100 \<le> d_year start \<and> month_index start \<le> month_index e \<longrightarrow>
      generateReport s u startDate endDate =
        Some (map (\<lambda>mi. Month (createMonthSheet mi
                     (entries_map (select_range u startDate endDate s))))
                (getMonthsInRange start e)) \<and>
      map (\<lambda>mi. (year mi, month mi)) (getMonthsInRange start e) =
        map (\<lambda>i. (i div 12, i mod 12 + 1)) [month_index start ..< Suc (month_index e)]) \<and>
   (100 \<le> y \<and> 1 \<le> m \<and> m \<le> 12 \<longrightarrow>
      map r_date (sheet_rows (createMonthSheet \<lparr>year = y, month = m, monthName = n\<rparr> em)) =
        map (date_string y m) [1..<Suc (days_in_month y m)] \<and>
      28 \<le> length (sheet_rows (createMonthSheet \<lparr>year = y, month = m, monthName = n\<rparr> em)) \<and>
      length (sheet_rows (createMonthSheet \<lparr>year = y, month = m, monthName = n\<rparr> em)) \<le> 31 \<and>
      (\<forall>d. 1 \<le> d \<and> d \<le> days_in_month y m \<and> em (date_string y m d) = None \<longrightarrow>
         r_check_in (sheet_rows (createMonthSheet \<lparr>year = y, month = m, monthName = n\<rparr> em)
                       ! (d - 1)) = (if is_weekend y m d then ''---'' else []) \<and>
         r_check_out (sheet_rows (createMonthSheet \<lparr>year = y, month = m, monthName = n\<rparr> em)
                       ! (d - 1)) = (if is_weekend y m d then ''---'' else [])))"
proof (intro conjI impI allI)
  assume a: "parse_iso_date startDate = Some start \<and> parse_iso_date endDate = Some e \<and>
    100 \<le> d_year start \<and> month_index start \<le> month_index e"
  then have v: "valid_date start" "valid_date e" "100 \<le> d_year start"
    using parse_iso_date_valid by blast+
  from a show "generateReport s u startDate endDate =
        Some (map (\<lambda>mi. Month (createMonthSheet mi
                     (entries_map (select_range u startDate endDate s))))
                (getMonthsInRange start e))"
    by (simp add: generateReport_def report_sheets_nonempty [OF v])
  show "map (\<lambda>mi. (year mi, month mi)) (getMonthsInRange start e) =
        map (\<lambda>i. (i div 12, i mod 12 + 1)) [month_index start ..< Suc (month_index e)]"
    by (rule getMonthsInRange_spec [OF v])
next
  let ?mi = "\<lparr>year = y, month = m, monthName = n\<rparr>"
  assume b: "100 \<le> y \<and> 1 \<le> m \<and> m \<le> 12"
  then have rows: "sheet_rows (createMonthSheet ?mi em) =
     map (\<lambda>d. fst (day_cells ?mi em d)) [1..<Suc (days_in_month y m)]"
    using sheet_rows_eq [of ?mi em] by simp
  show "map r_date (sheet_rows (createMonthSheet ?mi em)) =
        map (date_string y m) [1..<Suc (days_in_month y m)]"
    by (simp add: rows day_cells_date o_def)
  show "28 \<le> length (sheet_rows (createMonthSheet ?mi em))"
    using days_in_month_bounds [of y m] by (simp add: rows)
  show "length (sheet_rows (createMonthSheet ?mi em)) \<le> 31"
    using days_in_month_bounds [of y m] by (simp add: rows)
  fix d
  assume d: "1 \<le> d \<and> d \<le> days_in_month y m \<and> em (date_string y m d) = None"
  then have lt: "d - 1 < days_in_month y m" by arith
  have "[1..<Suc (days_in_month y m)] ! (d - 1) = 1 + (d - 1)"
    by (rule nth_upt) (use d in arith)
  with d have "[1..<Suc (days_in_month y m)] ! (d - 1) = d" by simp
  with lt have nth: "sheet_rows (createMonthSheet ?mi em) ! (d - 1) = fst (day_cells ?mi em d)"
    by (simp add: rows del: upt_Suc)
  from d b day_cells_no_entry [of em ?mi d]
  show "r_check_in (sheet_rows (createMonthSheet ?mi em) ! (d - 1)) =
          (if is_weekend y m d then ''---'' else [])"
    and "r_check_out (sheet_rows (createMonthSheet ?mi em) ! (d - 1)) =
          (if is_weekend y m d then ''---'' else [])"
    unfolding nth by simp_all
qed

theorem report_covers_calendar_witness:
  "parse_iso_date ''2026-01-01'' = Some jan_1 \<and> parse_iso_date ''2026-02-28'' = Some feb_28 \<and>
   map_option (map sheet_summary) (generateReport empty_store 1 ''2026-01-01'' ''2026-02-28'') =
     Some [(''January 2026'', 31), (''February 2026'', 28)] \<and>
   generateMonthRangeReport empty_store 1 2026 1 2026 2 =
     generateReport empty_store 1 ''2026-01-01'' ''2026-02-28'' \<and>
   map (\<lambda>mi. (year mi, month mi)) (getMonthsInRange jan_1 feb_28) = [(2026, 1), (2026, 2)] \<and>
   is_weekend 2026 2 1 \<and> \<not> is_weekend 2026 2 2 \<and>
   r_check_in (sheet_rows (createMonthSheet
       \<lparr>year = 2026, month = 2, monthName = ''February''\<rparr> Map.empty) ! (1 - 1)) = ''---'' \<and>
   r_check_out (sheet_rows (createMonthSheet
       \<lparr>year = 2026, month = 2, monthName = ''February''\<rparr> Map.empty) ! (2 - 1)) = []"
proof -
  note t = report_covers_calendar [where startDate = "''2026-01-01''" and endDate = "''2026-02-28''"
      and start = jan_1 and e = feb_28 and s = empty_store and u = 1
      and y = 2026 and m = 2 and n = "''February''" and em = Map.empty]
  have p: "parse_iso_date ''2026-01-01'' = Some jan_1 \<and> parse_iso_date ''2026-02-28'' = Some feb_28"
    by code_simp
  have h: "100 \<le> d_year jan_1 \<and> month_index jan_1 \<le> month_index feb_28"
    by (simp add: jan_1_def feb_28_def month_index_def)
  have ix: "map (\<lambda>i. (i div 12, i mod 12 + 1)) [month_index jan_1 ..< Suc (month_index feb_28)] =
      [(2026, 1), (2026 :: nat, 2 :: nat)]"
    by (simp add: jan_1_def feb_28_def month_index_def upt_rec)
  have sn: "show_nat 2026 = ''2026''"
    by code_simp
  have gm: "getMonthsInRange jan_1 feb_28 =
     [\<lparr>year = 2026, month = 1, monthName = ''January''\<rparr>,
      \<lparr>year = 2026, month = 2, monthName = ''February''\<rparr>]"
    by code_simp
  have sm: "map_option (map sheet_summary)
      (generateReport empty_store 1 ''2026-01-01'' ''2026-02-28'') =
     Some [(''January 2026'', 31), (''February 2026'', 28)]"
    by (simp add: generateReport_def p report_sheets_def Let_def gm sheet_summary_month sn
          days_in_month_def is_leap_def Date_year_def
          del: sheet_summary.simps parse_iso_date.simps)
  have ds: "''2026-'' @ padStart2 (show_nat 1) @ ''-01'' = ''2026-01-01'' \<and>
      ''2026-'' @ padStart2 (show_nat 2) @ ''-'' @ show_nat 28 = ''2026-02-28''"
    by code_simp
  have mr: "generateMonthRangeReport empty_store 1 2026 1 2026 2 =
     generateReport empty_store 1 ''2026-01-01'' ''2026-02-28''"
    using ds by (simp add: generateMonthRangeReport_def Let_def sn days_in_month_def is_leap_def
                   Date_year_def)
  have w: "is_weekend 2026 2 1 \<and> \<not> is_weekend 2026 2 2 \<and> days_in_month 2026 2 = 28"
    by (simp add: is_weekend_def day_of_week_def days_in_month_def is_leap_def)
  from t p h have "map (\<lambda>mi. (year mi, month mi)) (getMonthsInRange jan_1 feb_28) =
        map (\<lambda>i. (i div 12, i mod 12 + 1)) [month_index jan_1 ..< Suc (month_index feb_28)]"
    by blast
  with ix have 1: "map (\<lambda>mi. (year mi, month mi)) (getMonthsInRange jan_1 feb_28) =
      [(2026, 1), (2026, 2)]"
    by simp
  from t have cells: "\<forall>d. 1 \<le> d \<and> d \<le> days_in_month 2026 2 \<and>
         Map.empty (date_string 2026 2 d) = (None :: entry option) \<longrightarrow>
         r_check_in (sheet_rows (createMonthSheet
             \<lparr>year = 2026, month = 2, monthName = ''February''\<rparr> Map.empty) ! (d - 1)) =
           (if is_weekend 2026 2 d then ''---'' else []) \<and>
         r_check_out (sheet_rows (createMonthSheet
             \<lparr>year = 2026, month = 2, monthName = ''February''\<rparr> Map.empty) ! (d - 1)) =
           (if is_weekend 2026 2 d then ''---'' else [])"
    by simp
  from cells [rule_format, of 1] w have 2: "r_check_in (sheet_rows (createMonthSheet
       \<lparr>year = 2026, month = 2, monthName = ''February''\<rparr> Map.empty) ! (1 - 1)) = ''---''"
    by simp
  from cells [rule_format, of 2] w have 3: "r_check_out (sheet_rows (createMonthSheet
       \<lparr>year = 2026, month = 2, monthName = ''February''\<rparr> Map.empty) ! (2 - 1)) = []"
    by simp
  from p sm mr 1 2 3 w show ?thesis by blast
qed



subsection \<open>The TOTAL of a month\<close>






























end
